theory Spec2Isabelle
  imports Complex_Main
begin

section \<open>Values of the JavaScript runtime\<close>

text \<open>
  The sync script works on parsed JSON documents (the responses of the assignments
  service, of the roster endpoint and of the remote store) and on strings. A JavaScript
  number is a double: the embedding keeps the rational it denotes, the two infinities and
  NaN; the two zeros are one value (nothing below tells them apart). A string is a list
  of code units, of which the embedding has those below 256. An object is the list of its
  properties, the first binding of a key being the property.
\<close>

datatype jsnum = NaN | PosInf | NegInf | Fin rat

datatype json =
    JUndefined
  | JNull
  | JBool bool
  | JNum jsnum
  | JStr string
  | JArr "json list"
  | JObj "(string \<times> json) list"

datatype error = TypeError | RangeError | SheetError

text \<open>
  The library functions of the runtime that the script calls and that are not code of the
  repository are parameters of the embedding: number formatting and parsing, the
  \<^verbatim>\<open>Date\<close> constructor read through \<^verbatim>\<open>getTime()\<close> (milliseconds, \<open>None\<close> for
  an invalid date), \<^verbatim>\<open>toISOString()\<close>, and the decoding of a token's claims,
  \<^verbatim>\<open>JSON.parse(Buffer.from(part, 'base64').toString())\<close> (\<open>None\<close> when it throws).
\<close>

record builtins =
  numToString :: "jsnum \<Rightarrow> string"
  stringToNumber :: "string \<Rightarrow> jsnum"
  dateParse :: "json \<Rightarrow> int option"
  dateToISO :: "int \<Rightarrow> string"
  decodeClaims :: "string \<Rightarrow> json option"

fun nullish :: "json \<Rightarrow> bool" where
  "nullish JUndefined = True"
| "nullish JNull = True"
| "nullish _ = False"

text \<open>Truthiness, as \<^verbatim>\<open>if (v)\<close>, \<^verbatim>\<open>!v\<close>, \<^verbatim>\<open>&&\<close> and \<^verbatim>\<open>||\<close> read a value.\<close>

fun truthy :: "json \<Rightarrow> bool" where
  "truthy JUndefined = False"
| "truthy JNull = False"
| "truthy (JBool b) = b"
| "truthy (JNum n) = (n \<noteq> NaN \<and> n \<noteq> Fin 0)"
| "truthy (JStr s) = (s \<noteq> [])"
| "truthy (JArr _) = True"
| "truthy (JObj _) = True"

text \<open>
  \<^verbatim>\<open>v.k\<close> for a receiver that is neither \<^verbatim>\<open>null\<close> nor \<^verbatim>\<open>undefined\<close> (on those
  the access throws; every such site is guarded explicitly where it is embedded). The
  keys the script reads are data keys, none is a property of a prototype, so a primitive
  or an array answers \<^verbatim>\<open>undefined\<close>.
\<close>

fun getProp :: "json \<Rightarrow> string \<Rightarrow> json" where
  "getProp (JObj kvs) k = (case map_of kvs k of Some v \<Rightarrow> v | None \<Rightarrow> JUndefined)"
| "getProp _ k = JUndefined"

text \<open>\<^verbatim>\<open>a || b\<close>.\<close>

definition js_or :: "json \<Rightarrow> json \<Rightarrow> json" where
  "js_or a b = (if truthy a then a else b)"

text \<open>\<^verbatim>\<open>xs.join(sep)\<close> on strings.\<close>

fun join :: "string \<Rightarrow> string list \<Rightarrow> string" where
  "join sep [] = []"
| "join sep [x] = x"
| "join sep (x # y # ys) = x @ sep @ join sep (y # ys)"

text \<open>
  \<^verbatim>\<open>String(v)\<close>, which is also the conversion of a template literal. An array joins
  its elements with commas, null and undefined elements as empty strings. An object is
  converted by its \<^verbatim>\<open>toString\<close>: a parsed document that has a property of that name
  holds a value there that cannot be called, and the conversion throws a
  \<^verbatim>\<open>TypeError\<close>; any other object answers \<^verbatim>\<open>[object Object]\<close>.
\<close>

fun js_String :: "builtins \<Rightarrow> json \<Rightarrow> error + string"
  and js_Strings :: "builtins \<Rightarrow> json list \<Rightarrow> error + string list" where
  "js_String B JUndefined = Inr ''undefined''"
| "js_String B JNull = Inr ''null''"
| "js_String B (JBool b) = Inr (if b then ''true'' else ''false'')"
| "js_String B (JNum n) = Inr (numToString B n)"
| "js_String B (JStr s) = Inr s"
| "js_String B (JArr xs) =
     (case js_Strings B xs of Inl e \<Rightarrow> Inl e | Inr ss \<Rightarrow> Inr (join '','' ss))"
| "js_String B (JObj kvs) =
     (if ''toString'' \<in> fst ` set kvs then Inl TypeError else Inr ''[object Object]'')"
| "js_Strings B [] = Inr []"
| "js_Strings B (x # xs) =
     (case (if nullish x then Inr [] else js_String B x) of
        Inl e \<Rightarrow> Inl e
      | Inr s \<Rightarrow> (case js_Strings B xs of Inl e \<Rightarrow> Inl e | Inr ss \<Rightarrow> Inr (s # ss)))"

text \<open>The conversion returns.\<close>

definition converts :: "builtins \<Rightarrow> json \<Rightarrow> bool" where
  "converts B v = (case js_String B v of Inr s \<Rightarrow> True | Inl e \<Rightarrow> False)"

text \<open>\<^verbatim>\<open>Number(v)\<close>; an object or array goes through its string and throws where that
  conversion throws.\<close>

fun js_Number :: "builtins \<Rightarrow> json \<Rightarrow> error + jsnum" where
  "js_Number B JUndefined = Inr NaN"
| "js_Number B JNull = Inr (Fin 0)"
| "js_Number B (JBool b) = Inr (if b then Fin 1 else Fin 0)"
| "js_Number B (JNum n) = Inr n"
| "js_Number B (JStr s) = Inr (stringToNumber B s)"
| "js_Number B (JArr xs) =
     (case js_String B (JArr xs) of Inl e \<Rightarrow> Inl e | Inr s \<Rightarrow> Inr (stringToNumber B s))"
| "js_Number B (JObj kvs) =
     (case js_String B (JObj kvs) of Inl e \<Rightarrow> Inl e | Inr s \<Rightarrow> Inr (stringToNumber B s))"

text \<open>Sequencing of steps that can throw.\<close>

definition andThen :: "error + 'a \<Rightarrow> ('a \<Rightarrow> error + 'b) \<Rightarrow> error + 'b" where
  "andThen m f = (case m of Inl e \<Rightarrow> Inl e | Inr x \<Rightarrow> f x)"

section \<open>Strings\<close>

text \<open>
  \<^verbatim>\<open>s.replace(/<[^>]*>/g, '')\<close>: scanning from the left, a \<^verbatim>\<open><\<close> that has a
  \<^verbatim>\<open>>\<close> somewhere after it is removed together with everything up to the first such
  \<^verbatim>\<open>>\<close>; a \<^verbatim>\<open><\<close> with no \<^verbatim>\<open>>\<close> after it matches nothing and stays.
\<close>

function strip_tags :: "string \<Rightarrow> string" where
  "strip_tags [] = []"
| "strip_tags (c # cs) =
     (if c = CHR ''<'' \<and> CHR ''>'' \<in> set cs
      then strip_tags (tl (dropWhile (\<lambda>x. x \<noteq> CHR ''>'') cs))
      else c # strip_tags cs)"
  by pat_completeness auto
termination
proof (relation "measure length")
  fix c :: char and cs :: string
  have "length (tl (dropWhile (\<lambda>x. x \<noteq> CHR ''>'') cs)) \<le> length cs"
    using length_dropWhile_le [of "\<lambda>x. x \<noteq> CHR ''>''" cs] by simp
  then show "(tl (dropWhile (\<lambda>x. x \<noteq> CHR ''>'') cs), c # cs) \<in> measure length"
    by simp
qed simp_all

text \<open>
  The white space \<^verbatim>\<open>trim()\<close> removes, among the code units below 256: tab, line feed,
  vertical tab, form feed, carriage return, space and no-break space.
\<close>

definition is_ws :: "char \<Rightarrow> bool" where
  "is_ws c = (of_char c \<in> {9, 10, 11, 12, 13, 32, 160 :: nat})"

definition trim :: "string \<Rightarrow> string" where
  "trim s = rev (dropWhile is_ws (rev (dropWhile is_ws s)))"

text \<open>A complete tag, as the pattern \<^verbatim>\<open><[^>]*>\<close> finds one: a \<^verbatim>\<open><\<close> with a
  \<^verbatim>\<open>>\<close> after it.\<close>

definition has_tag :: "string \<Rightarrow> bool" where
  "has_tag s = (CHR ''>'' \<in> set (dropWhile (\<lambda>x. x \<noteq> CHR ''<'') s))"

text \<open>\<^verbatim>\<open>s.split(c)\<close> for a one-character separator.\<close>

fun split_on :: "char \<Rightarrow> string \<Rightarrow> string list" where
  "split_on c [] = [[]]"
| "split_on c (x # xs) =
     (if x = c then [] # split_on c xs
      else (case split_on c xs of [] \<Rightarrow> [[x]] | p # ps \<Rightarrow> (x # p) # ps))"

text \<open>
  \<^verbatim>\<open>parseIsoOrNull(s)\<close> and \<^verbatim>\<open>iso(s)\<close>. The \<^verbatim>\<open>Date\<close> constructor converts an
  object or array first and throws where that conversion throws; the \<^verbatim>\<open>try\<close> of
  \<^verbatim>\<open>parseIsoOrNull\<close> turns the throw into \<^verbatim>\<open>null\<close>.
\<close>

definition parseIsoOrNull :: "builtins \<Rightarrow> json \<Rightarrow> int option" where
  "parseIsoOrNull B s =
     (if \<not> truthy s then None
      else if \<not> converts B s then None
      else dateParse B s)"

definition iso :: "builtins \<Rightarrow> json \<Rightarrow> string" where
  "iso B s =
     (if \<not> truthy s then []
      else (case parseIsoOrNull B s of Some d \<Rightarrow> dateToISO B d | None \<Rightarrow> []))"

section \<open>Network and roster cache\<close>

text \<open>
  The requests one run sends to the assignments service, and what comes back: \<open>Failed\<close>
  stands for every way a fetch does not deliver a document (a rejected promise, a status
  that is not accepted, a body that is not JSON), \<open>Body\<close> carries the parsed document.
  The service is an oracle that answers a request knowing all requests sent before it.
\<close>

datatype request = MembersReq string | DetailReq string string

datatype response = Failed | Body json

type_synonym network = "request list \<Rightarrow> request \<Rightarrow> response"

record person =
  pid :: json
  displayName :: json
  email :: json
  role :: json

text \<open>
  \<^verbatim>\<open>{teachers, students, byId}\<close>. The \<^verbatim>\<open>Map\<close> \<open>byId\<close> is a list of bindings, newest
  first; a key is found by the SameValueZero comparison, under which an object or array
  equals only itself, so that a key of that kind taken from another document never
  matches.
\<close>

record members =
  teachers :: "person list"
  students :: "person list"
  byId :: "(json \<times> person) list"

fun primitive :: "json \<Rightarrow> bool" where
  "primitive (JArr _) = False"
| "primitive (JObj _) = False"
| "primitive _ = True"

fun map_get :: "(json \<times> person) list \<Rightarrow> json \<Rightarrow> person option" where
  "map_get [] k = None"
| "map_get ((k', v) # m) k = (if primitive k \<and> k' = k then Some v else map_get m k)"

definition emptyMembers :: members where
  "emptyMembers = \<lparr>teachers = [], students = [], byId = []\<rparr>"

text \<open>The body of the \<^verbatim>\<open>forEach\<close> over \<^verbatim>\<open>data.value\<close>; a member that is
  \<^verbatim>\<open>null\<close> makes \<^verbatim>\<open>member.id\<close> throw.\<close>

fun addMembers :: "json list \<Rightarrow> members \<Rightarrow> error + members" where
  "addMembers [] m = Inr m"
| "addMembers (member # rest) m =
     (if nullish member then Inl TypeError
      else
        (let p = \<lparr>pid = getProp member ''id'', displayName = getProp member ''displayName'',
                  email = getProp member ''email'', role = getProp member ''role''\<rparr>;
             m1 = m\<lparr>byId := (getProp member ''id'', p) # byId m\<rparr>;
             m2 = (if getProp member ''role'' = JStr ''teacher'' then m1\<lparr>teachers := teachers m1 @ [p]\<rparr>
                   else if getProp member ''role'' = JStr ''student'' then m1\<lparr>students := students m1 @ [p]\<rparr>
                   else m1)
         in addMembers rest m2))"

definition buildMembers :: "json \<Rightarrow> error + members" where
  "buildMembers data =
     (if nullish data then Inl TypeError
      else (case getProp data ''value'' of
              JArr xs \<Rightarrow> addMembers xs emptyMembers
            | _ \<Rightarrow> Inr emptyMembers))"

text \<open>What one run holds: the roster cache \<^verbatim>\<open>this.classMembers\<close> and the requests
  sent so far.\<close>

record world =
  classMembers :: "string \<rightharpoonup> members"
  requests :: "request list"

definition newWorld :: world where
  "newWorld = \<lparr>classMembers = Map.empty, requests = []\<rparr>"

text \<open>
  \<^verbatim>\<open>fetchClassMembers(classId)\<close>. A cached roster is returned without a request.
  Otherwise one request is sent; whatever goes wrong with it or with the document is
  caught, and the empty roster is stored in its place.
\<close>

definition fetchClassMembers :: "network \<Rightarrow> string \<Rightarrow> world \<Rightarrow> members \<times> world" where
  "fetchClassMembers net classId w =
     (case classMembers w classId of
        Some m \<Rightarrow> (m, w)
      | None \<Rightarrow>
          (let resp = net (requests w) (MembersReq classId);
               w1 = w\<lparr>requests := requests w @ [MembersReq classId]\<rparr>;
               m = (case resp of
                      Failed \<Rightarrow> emptyMembers
                    | Body data \<Rightarrow>
                        (case buildMembers data of Inr m \<Rightarrow> m | Inl e \<Rightarrow> emptyMembers))
           in (m, w1\<lparr>classMembers := (classMembers w1)(classId \<mapsto> m)\<rparr>)))"

text \<open>\<^verbatim>\<open>fetchDetailedAssignment(classId, assignmentId)\<close>: the document, or \<^verbatim>\<open>null\<close>.\<close>

definition fetchDetailedAssignment :: "network \<Rightarrow> string \<Rightarrow> string \<Rightarrow> world \<Rightarrow> json \<times> world" where
  "fetchDetailedAssignment net classId assignmentId w =
     (let resp = net (requests w) (DetailReq classId assignmentId);
          w1 = w\<lparr>requests := requests w @ [DetailReq classId assignmentId]\<rparr>
      in ((case resp of Failed \<Rightarrow> JNull | Body d \<Rightarrow> d), w1))"

section \<open>Normalisation\<close>

text \<open>The canonical record; \<open>id'\<close> is the field \<^verbatim>\<open>id\<close>.\<close>

record canonical =
  id' :: string
  title :: string
  description :: string
  dueDate :: string
  assignedDate :: string
  createdDate :: string
  modifiedDate :: string
  status :: string
  classId :: string
  teacherName :: json
  teacherEmail :: json
  studentCount :: nat
  webUrl :: string
  allTurnedIn :: bool
  anySubmittedState :: bool
  allowLateSubmissions :: bool
  agg_total :: jsnum
  agg_submitted :: jsnum

text \<open>\<^verbatim>\<open>v?.k\<close>.\<close>

definition optProp :: "json \<Rightarrow> string \<Rightarrow> json" where
  "optProp v k = (if nullish v then JUndefined else getProp v k)"

text \<open>The teacher of lines 565 to 579: the creator when the roster knows them as a
  teacher, else the first teacher of the roster, else empty strings.\<close>

definition resolveTeacher :: "json \<Rightarrow> members \<Rightarrow> json \<times> json" where
  "resolveTeacher raw m =
     (let createdByUserId = optProp (optProp (getProp raw ''createdBy'') ''user'') ''id'';
          (teacherName1, teacherEmail1) =
            (if truthy createdByUserId then
               (case map_get (byId m) createdByUserId of
                  Some creator \<Rightarrow>
                    (if role creator = JStr ''teacher''
                     then (js_or (displayName creator) (JStr []), js_or (email creator) (JStr []))
                     else (JStr [], JStr []))
                | None \<Rightarrow> (JStr [], JStr []))
             else (JStr [], JStr []))
      in (if \<not> truthy teacherName1 then
            (case teachers m of
               t # ts \<Rightarrow> (js_or (displayName t) (JStr []), js_or (email t) (JStr []))
             | [] \<Rightarrow> (teacherName1, teacherEmail1))
          else (teacherName1, teacherEmail1)))"

text \<open>
  \<^verbatim>\<open>instructions.content.replace(/<[^>]*>/g, '').trim()\<close> under the guard
  \<^verbatim>\<open>instructions && instructions.content\<close>: the empty string when the guard fails, a
  \<^verbatim>\<open>TypeError\<close> when the content is truthy and not a string (it has no \<^verbatim>\<open>replace\<close>).
\<close>

definition extractDescription :: "json \<Rightarrow> error + string" where
  "extractDescription instructions =
     (if truthy instructions \<and> truthy (getProp instructions ''content'') then
        (case getProp instructions ''content'' of
           JStr s \<Rightarrow> Inr (trim (strip_tags s))
         | _ \<Rightarrow> Inl TypeError)
      else Inr [])"

text \<open>The roster part of \<^verbatim>\<open>normalizeAssignment\<close> (lines 561 to 585): teacher name and
  email, student count, and the world after the lookup.\<close>

definition rosterStage :: "network \<Rightarrow> json \<Rightarrow> string \<Rightarrow> world \<Rightarrow> (json \<times> json) \<times> nat \<times> world" where
  "rosterStage net raw cid w =
     (if cid \<noteq> [] then
        (let (m, w') = fetchClassMembers net cid w
         in (resolveTeacher raw m, length (students m), w'))
      else ((JStr [], JStr []), 0, w))"

text \<open>
  The fallback of lines 593 to 604: one detail request when the description is empty and
  both identifiers are there. The \<^verbatim>\<open>try\<close> block first prints the display name and then
  builds the address from the id, each through a template literal; a throw of either
  conversion is caught before any request is sent, like a throw while the answer is read.
  The handler prints the id through a template literal of its own: when that conversion
  throws, the error leaves \<^verbatim>\<open>normalizeAssignment\<close>.
\<close>

definition detailStage :: "builtins \<Rightarrow> network \<Rightarrow> json \<Rightarrow> string \<Rightarrow> string \<Rightarrow> world \<Rightarrow> (error + string) \<times> world" where
  "detailStage B net raw cid description1 w1 =
     (if description1 = [] \<and> cid \<noteq> [] \<and> truthy (getProp raw ''id'') then
        (case (js_String B (getProp raw ''displayName''), js_String B (getProp raw ''id'')) of
           (Inr shown, Inr assignmentId) \<Rightarrow>
             (let (detailedAssignment, w') = fetchDetailedAssignment net cid assignmentId w1
              in (if truthy detailedAssignment then
                    (case extractDescription (getProp detailedAssignment ''instructions'') of
                       Inr d \<Rightarrow> (Inr d, w')
                     | Inl e \<Rightarrow> (Inr description1, w'))
                  else (Inr description1, w')))
         | (Inl e, Inr assignmentId) \<Rightarrow> (Inr description1, w1)
         | (shown, Inl e) \<Rightarrow> (Inl TypeError, w1))
      else (Inr description1, w1))"

text \<open>The object literal that \<^verbatim>\<open>normalizeAssignment\<close> returns (lines 606 to 625); its
  calls of \<^verbatim>\<open>String\<close> and \<^verbatim>\<open>Number\<close> are outside any \<^verbatim>\<open>try\<close>.\<close>

definition makeCanonical :: "builtins \<Rightarrow> json \<Rightarrow> string \<Rightarrow> json \<Rightarrow> json \<Rightarrow> nat \<Rightarrow> string \<Rightarrow> error + canonical" where
  "makeCanonical B raw cid tName tEmail count description1 =
     (let submissionAggregates = js_or (getProp raw ''submissionAggregates'') (JObj [])
      in andThen (js_String B (js_or (getProp raw ''id'') (JStr []))) (\<lambda>id1.
         andThen (js_String B (js_or (getProp raw ''displayName'') (JStr []))) (\<lambda>title1.
         andThen (js_String B (js_or (getProp raw ''status'') (JStr []))) (\<lambda>status1.
         andThen (js_String B (js_or (getProp raw ''webUrl'') (JStr []))) (\<lambda>webUrl1.
         andThen (js_Number B (js_or (getProp submissionAggregates ''total'') (JNum (Fin 0)))) (\<lambda>total1.
         andThen (js_Number B (js_or (getProp submissionAggregates ''submitted'') (JNum (Fin 0)))) (\<lambda>submitted1.
           Inr \<lparr>id' = id1,
                title = title1,
                description = description1,
                dueDate = iso B (getProp raw ''dueDateTime''),
                assignedDate = iso B (getProp raw ''assignedDateTime''),
                createdDate = iso B (getProp raw ''createdDateTime''),
                modifiedDate = iso B (getProp raw ''lastModifiedDateTime''),
                status = status1,
                classId = cid,
                teacherName = tName,
                teacherEmail = tEmail,
                studentCount = count,
                webUrl = webUrl1,
                allTurnedIn = truthy (getProp raw ''allTurnedIn''),
                anySubmittedState = truthy (getProp raw ''anySubmittedState''),
                allowLateSubmissions = truthy (getProp raw ''allowLateSubmissions''),
                agg_total = total1,
                agg_submitted = submitted1\<rparr>)))))))"

text \<open>
  \<^verbatim>\<open>normalizeAssignment(raw)\<close>. Reading a field of a \<^verbatim>\<open>null\<close> or \<^verbatim>\<open>undefined\<close>
  record throws at once, and so does the conversion of the class id. The roster lookup
  and the detail request sit in \<^verbatim>\<open>try\<close> blocks; the extraction of the description
  from the record itself and the conversions of the returned object do not.
\<close>

definition normalizeAssignment :: "builtins \<Rightarrow> network \<Rightarrow> json \<Rightarrow> world \<Rightarrow> (error + canonical) \<times> world" where
  "normalizeAssignment B net raw w =
     (if nullish raw then (Inl TypeError, w)
      else
        (case js_String B (js_or (getProp raw ''classId'') (JStr [])) of
           Inl e \<Rightarrow> (Inl e, w)
         | Inr cid \<Rightarrow>
             (let ((tName, tEmail), count, w1) = rosterStage net raw cid w
              in (case extractDescription (getProp raw ''instructions'') of
                    Inl e \<Rightarrow> (Inl e, w1)
                  | Inr description1 \<Rightarrow>
                      (case detailStage B net raw cid description1 w1 of
                         (Inl e, w2) \<Rightarrow> (Inl e, w2)
                       | (Inr description2, w2) \<Rightarrow>
                           (makeCanonical B raw cid tName tEmail count description2, w2))))))"

text \<open>The loop of \<^verbatim>\<open>run\<close> over the fetched records; a throw ends it.\<close>

fun normalizeAll :: "builtins \<Rightarrow> network \<Rightarrow> json list \<Rightarrow> world \<Rightarrow> (error + canonical list) \<times> world" where
  "normalizeAll B net [] w = (Inr [], w)"
| "normalizeAll B net (raw # raws) w =
     (case normalizeAssignment B net raw w of
        (Inl e, w1) \<Rightarrow> (Inl e, w1)
      | (Inr c, w1) \<Rightarrow>
          (case normalizeAll B net raws w1 of
             (Inl e, w2) \<Rightarrow> (Inl e, w2)
           | (Inr cs, w2) \<Rightarrow> (Inr (c # cs), w2)))"

section \<open>Command line and persisted state\<close>

text \<open>The result of \<^verbatim>\<open>parseArgs\<close>; \<open>None\<close> is \<^verbatim>\<open>null\<close>.\<close>

record args =
  dueBefore :: "string option"
  dueAfter :: "string option"
  statuses :: "string list"
  classIds :: "string list"
  incomplete :: bool
  overdue :: bool
  incremental :: bool
  full :: bool
  details :: "string option"
  refreshTokens :: bool

text \<open>The document of \<^verbatim>\<open>state.json\<close>.\<close>

record sync_state =
  lastRun :: "string option"
  seenIds :: "string list"

text \<open>
  \<^verbatim>\<open>updateState(processedIds)\<close>, at wall-clock time \<open>now\<close> (milliseconds); the state
  it returns is the one \<^verbatim>\<open>saveState\<close> writes.
\<close>

definition updateState :: "builtins \<Rightarrow> args \<Rightarrow> int \<Rightarrow> string list \<Rightarrow> sync_state \<Rightarrow> sync_state" where
  "updateState B a now processedIds st =
     (let st1 =
        (if full a then st\<lparr>seenIds := processedIds\<rparr>
         else if incremental a then
           (let newIds = filter (\<lambda>i. i \<notin> set (seenIds st)) processedIds
            in st\<lparr>seenIds := seenIds st @ newIds\<rparr>)
         else st)
      in st1\<lparr>lastRun := Some (dateToISO B now)\<rparr>)"

section \<open>Filters\<close>

text \<open>A string option of the command line read as a condition: \<^verbatim>\<open>null\<close> and the
  empty string are falsy.\<close>

fun given :: "string option \<Rightarrow> bool" where
  "given None = False"
| "given (Some s) = (s \<noteq> [])"

fun argStr :: "string option \<Rightarrow> json" where
  "argStr None = JNull"
| "argStr (Some s) = JStr s"

text \<open>
  The callback of \<^verbatim>\<open>items.filter\<close> in \<^verbatim>\<open>applyFilters\<close>, check by check in the order
  of the source; \<open>now\<close> is the reading of \<^verbatim>\<open>new Date()\<close> taken for this item.
\<close>

definition keepItem :: "builtins \<Rightarrow> args \<Rightarrow> sync_state \<Rightarrow> int \<Rightarrow> canonical \<Rightarrow> bool" where
  "keepItem B a st now item =
     (if given (dueBefore a) \<and> dueDate item \<noteq> [] \<and>
         (case (parseIsoOrNull B (JStr (dueDate item)), parseIsoOrNull B (argStr (dueBefore a))) of
            (Some d, Some b) \<Rightarrow> d > b
          | _ \<Rightarrow> False)
      then False
      else if given (dueAfter a) \<and> dueDate item \<noteq> [] \<and>
         (case (parseIsoOrNull B (JStr (dueDate item)), parseIsoOrNull B (argStr (dueAfter a))) of
            (Some d, Some b) \<Rightarrow> d < b
          | _ \<Rightarrow> False)
      then False
      else if statuses a \<noteq> [] \<and> status item \<notin> set (statuses a) then False
      else if classIds a \<noteq> [] \<and> classId item \<notin> set (classIds a) then False
      else if incomplete a \<and> (allTurnedIn item \<and> anySubmittedState item) then False
      else if overdue a \<and>
         (dueDate item = [] \<or>
          (case parseIsoOrNull B (JStr (dueDate item)) of None \<Rightarrow> True | Some d \<Rightarrow> d \<ge> now))
      then False
      else if incremental a \<and> id' item \<in> set (seenIds st) then False
      else True)"

text \<open>\<^verbatim>\<open>applyFilters(items)\<close>; \<open>nowAt k\<close> is the clock while item \<open>k\<close> is examined.\<close>

definition applyFilters :: "builtins \<Rightarrow> args \<Rightarrow> sync_state \<Rightarrow> (nat \<Rightarrow> int) \<Rightarrow> canonical list \<Rightarrow> canonical list" where
  "applyFilters B a st nowAt items =
     map snd (filter (\<lambda>(k, item). keepItem B a st (nowAt k) item) (enumerate 0 items))"

section \<open>Export files and the remote-store payload\<close>

text \<open>
  One entry of \<^verbatim>\<open>notion_payload.json\<close>, which is also the body of a create call. Of
  its properties the embedding keeps the identifier, the title, the notes and the four
  dates; the others copy fields of the item. Building it can throw: the teacher name goes
  through \<^verbatim>\<open>formatTeacherName\<close>, which calls \<^verbatim>\<open>match\<close> on it, and every date
  through \<^verbatim>\<open>new Date(dateStr).toISOString()\<close>.
\<close>

record notion_page =
  external_id :: string
  Title :: string
  Notes :: string
  assignedStart :: "string option"
  createdStart :: "string option"
  dueStart :: "string option"
  modifiedStart :: "string option"

fun is_string :: "json \<Rightarrow> bool" where
  "is_string (JStr _) = True"
| "is_string _ = False"

definition formatDate :: "builtins \<Rightarrow> string \<Rightarrow> error + string option" where
  "formatDate B dateStr =
     (if dateStr = [] then Inr None
      else (case dateParse B (JStr dateStr) of
              None \<Rightarrow> Inl RangeError
            | Some t \<Rightarrow> Inr (Some (dateToISO B t))))"

definition buildPage :: "builtins \<Rightarrow> canonical \<Rightarrow> error + notion_page" where
  "buildPage B item =
     (if truthy (teacherName item) \<and> \<not> is_string (teacherName item) then Inl TypeError
      else
        (case formatDate B (assignedDate item) of Inl e \<Rightarrow> Inl e | Inr a \<Rightarrow>
        (case formatDate B (createdDate item) of Inl e \<Rightarrow> Inl e | Inr c \<Rightarrow>
        (case formatDate B (dueDate item) of Inl e \<Rightarrow> Inl e | Inr d \<Rightarrow>
        (case formatDate B (modifiedDate item) of Inl e \<Rightarrow> Inl e | Inr m \<Rightarrow>
           Inr \<lparr>external_id = id' item, Title = title item,
                Notes = take 2000 (description item),
                assignedStart = a, createdStart = c, dueStart = d, modifiedStart = m\<rparr>)))))"







section \<open>Upload to the remote store\<close>

text \<open>\<^verbatim>\<open>v?.[0]\<close>: the first element of an array, the first character of a string, the
  property \<^verbatim>\<open>"0"\<close> of an object.\<close>

fun optIndex0 :: "json \<Rightarrow> json" where
  "optIndex0 (JArr (x # xs)) = x"
| "optIndex0 (JStr (c # cs)) = JStr [c]"
| "optIndex0 (JObj kvs) = getProp (JObj kvs) ''0''"
| "optIndex0 _ = JUndefined"

text \<open>
  The \<^verbatim>\<open>forEach\<close> over \<^verbatim>\<open>data.results\<close> in \<^verbatim>\<open>getExistingNotionIds\<close>: the ids
  collected, and whether the loop finished without a throw. Ids added before a throw stay
  in the set.
\<close>

fun collectIds :: "json list \<Rightarrow> json list \<Rightarrow> json list \<times> bool" where
  "collectIds [] acc = (acc, True)"
| "collectIds (page # rest) acc =
     (if nullish page \<or> nullish (getProp page ''properties'') then (acc, False)
      else
        (let assignmentId =
               optProp (optProp (optIndex0 (optProp
                 (getProp (getProp page ''properties'') ''Assignment ID'') ''rich_text'')) ''text'') ''content''
         in collectIds rest (if truthy assignmentId then acc @ [assignmentId] else acc)))"

text \<open>
  \<^verbatim>\<open>getExistingNotionIds()\<close> against the successive answers of the remote store. The
  loop ends on an error or on a page without \<^verbatim>\<open>has_more\<close>; \<open>None\<close> says that the
  answers listed ran out while the store still announced more, that is, the query has not
  returned.
\<close>

fun getExistingNotionIds :: "response list \<Rightarrow> json list \<Rightarrow> json list option" where
  "getExistingNotionIds [] acc = None"
| "getExistingNotionIds (Failed # rs) acc = Some acc"
| "getExistingNotionIds (Body data # rs) acc =
     (if nullish data then Some acc
      else (case getProp data ''results'' of
              JArr ps \<Rightarrow>
                (case collectIds ps acc of
                   (acc', False) \<Rightarrow> Some acc'
                 | (acc', True) \<Rightarrow>
                     (if truthy (getProp data ''has_more'') then getExistingNotionIds rs acc'
                      else Some acc'))
            | _ \<Rightarrow> Some acc))"

text \<open>
  The state of the upload loop: the wall clock, the \<^verbatim>\<open>lastCall\<close> of the rate limiter,
  the two counters, and the create calls issued, each with the item's id and the time the
  limiter released it.
\<close>

record upload =
  clock :: int
  lastCall :: int
  uploaded :: nat
  failed :: nat
  creates :: "(string \<times> int) list"

text \<open>
  What the environment decides in one iteration: \<open>lag\<close>, the time by which the timer
  fires late or, without a timer, the time between the two readings of the clock (a timer
  is taken never to fire early, and the clock never to run backwards); \<open>took\<close>, the time
  from the release to the next iteration; \<open>accepted\<close>, whether the store accepted the page.
\<close>

record tick =
  lag :: nat
  took :: nat
  accepted :: bool

text \<open>One call of the function \<^verbatim>\<open>createRateLimiter(delayMs)\<close> returns.\<close>

definition rateLimiter :: "int \<Rightarrow> nat \<Rightarrow> upload \<Rightarrow> upload" where
  "rateLimiter delayMs lg u =
     (let now = clock u;
          timeSinceLastCall = now - lastCall u;
          woke = (if timeSinceLastCall < delayMs then now + (delayMs - timeSinceLastCall) + int lg
                  else now + int lg)
      in u\<lparr>clock := woke, lastCall := woke\<rparr>)"

text \<open>The body of the loop over \<^verbatim>\<open>newItems\<close>: a page that cannot be built throws
  before any request is sent, and counts as failed like a rejected one.\<close>

definition uploadStep :: "builtins \<Rightarrow> int \<Rightarrow> tick \<Rightarrow> canonical \<Rightarrow> upload \<Rightarrow> upload" where
  "uploadStep B delayMs t item u =
     (let u1 = rateLimiter delayMs (lag t) u
      in (case buildPage B item of
            Inl e \<Rightarrow> u1\<lparr>failed := failed u1 + 1, clock := clock u1 + int (took t)\<rparr>
          | Inr p \<Rightarrow>
              (let u2 = u1\<lparr>creates := creates u1 @ [(id' item, lastCall u1)],
                           clock := clock u1 + int (took t)\<rparr>
               in if accepted t then u2\<lparr>uploaded := uploaded u2 + 1\<rparr>
                  else u2\<lparr>failed := failed u2 + 1\<rparr>)))"

fun uploadLoop :: "builtins \<Rightarrow> int \<Rightarrow> (nat \<Rightarrow> tick) \<Rightarrow> nat \<Rightarrow> canonical list \<Rightarrow> upload \<Rightarrow> upload" where
  "uploadLoop B delayMs env k [] u = u"
| "uploadLoop B delayMs env k (item # items) u =
     uploadLoop B delayMs env (Suc k) items (uploadStep B delayMs (env k) item u)"

text \<open>The part of the configuration and of the remote store \<^verbatim>\<open>uploadToNotion\<close> meets.\<close>

record notion =
  NOTION_TOKEN :: "string option"
  NOTION_DATABASE_ID :: "string option"
  queryAnswers :: "response list"
  ticks :: "nat \<Rightarrow> tick"

definition newItems :: "json list \<Rightarrow> canonical list \<Rightarrow> canonical list" where
  "newItems existingIds items = filter (\<lambda>item. JStr (id' item) \<notin> set existingIds) items"

text \<open>
  \<^verbatim>\<open>uploadToNotion(items)\<close>, with \<open>t0\<close> the wall clock when the loop over the new
  items begins: the final loop state when it returns, \<open>None\<close> when the query for the
  existing ids has not returned.
\<close>

definition uploadToNotion :: "builtins \<Rightarrow> notion \<Rightarrow> int \<Rightarrow> canonical list \<Rightarrow> upload option" where
  "uploadToNotion B n t0 items =
     (let start = \<lparr>clock = t0, lastCall = 0, uploaded = 0, failed = 0, creates = []\<rparr>
      in if \<not> given (NOTION_TOKEN n) \<or> \<not> given (NOTION_DATABASE_ID n) then Some start
         else (case getExistingNotionIds (queryAnswers n) [] of
                 None \<Rightarrow> None
               | Some existingIds \<Rightarrow>
                   Some (uploadLoop B 300 (ticks n) 0 (newItems existingIds items) start)))"

section \<open>Credential check and refresh\<close>

text \<open>\<^verbatim>\<open>process.env\<close>.\<close>

type_synonym environ = "string \<rightharpoonup> string"

text \<open>\<^verbatim>\<open>payload.exp > now\<close> inside the \<^verbatim>\<open>try\<close> of \<^verbatim>\<open>validateToken\<close>: the claim is
  converted to a number and compared; a throw of the conversion is caught there and
  answers \<^verbatim>\<open>false\<close>.\<close>

definition js_gt :: "builtins \<Rightarrow> json \<Rightarrow> int \<Rightarrow> bool" where
  "js_gt B v n =
     (case js_Number B v of
        Inr (Fin r) \<Rightarrow> r > of_int n
      | Inr PosInf \<Rightarrow> True
      | _ \<Rightarrow> False)"

text \<open>
  \<^verbatim>\<open>validateToken(token)\<close> at wall-clock time \<open>nowMs\<close>; \<open>None\<close> is \<^verbatim>\<open>undefined\<close>.
  Every throw inside (claims that do not decode, a payload that is \<^verbatim>\<open>null\<close>) is caught
  and answers \<^verbatim>\<open>false\<close>.
\<close>

definition validateToken :: "builtins \<Rightarrow> int \<Rightarrow> string option \<Rightarrow> bool" where
  "validateToken B nowMs token =
     (case token of
        None \<Rightarrow> False
      | Some t \<Rightarrow>
          (if t = [] then False
           else (case split_on CHR ''.'' t of
                   [p0, p1, p2] \<Rightarrow>
                     (case decodeClaims B p1 of
                        None \<Rightarrow> False
                      | Some payload \<Rightarrow>
                          (if nullish payload then False
                           else truthy (getProp payload ''exp'') \<and>
                                js_gt B (getProp payload ''exp'') (nowMs div 1000)))
                 | _ \<Rightarrow> False)))"

text \<open>
  One line of \<^verbatim>\<open>.env\<close> against \<^verbatim>\<open>/^([^=]+)=(.*)$/\<close>: a non-empty key before the first
  \<^verbatim>\<open>=\<close>, and a value without line terminator (the dot does not match one); the value
  then loses one leading and one trailing double quote.
\<close>

definition stripQuotes :: "string \<Rightarrow> string" where
  "stripQuotes v =
     (let v1 = (case v of c # cs \<Rightarrow> (if c = CHR 0x22 then cs else v) | [] \<Rightarrow> v)
      in if v1 \<noteq> [] \<and> last v1 = CHR 0x22 then butlast v1 else v1)"

definition parseEnvLine :: "string \<Rightarrow> (string \<times> string) option" where
  "parseEnvLine line =
     (let key = takeWhile (\<lambda>c. c \<noteq> CHR ''='') line;
          rest = dropWhile (\<lambda>c. c \<noteq> CHR ''='') line
      in if key = [] \<or> rest = [] then None
         else if CHR 0x0D \<in> set (tl rest) \<or> CHR 0x0A \<in> set (tl rest) then None
         else Some (key, stripQuotes (tl rest)))"

definition setEnv :: "bool \<Rightarrow> environ \<Rightarrow> string \<Rightarrow> environ" where
  "setEnv override env line =
     (case parseEnvLine line of
        None \<Rightarrow> env
      | Some (key, v) \<Rightarrow> (if override \<or> \<not> given (env key) then env(key \<mapsto> v) else env))"

text \<open>\<^verbatim>\<open>loadEnv(override)\<close>; the file is \<open>None\<close> when \<^verbatim>\<open>.env\<close> does not exist.\<close>

definition loadEnv :: "bool \<Rightarrow> string option \<Rightarrow> environ \<Rightarrow> environ" where
  "loadEnv override dotenv env =
     (case dotenv of
        None \<Rightarrow> env
      | Some envContent \<Rightarrow> foldl (setEnv override) env (split_on CHR 0x0A envContent))"

text \<open>
  The extractor subprocess as the script sees it: how it ended (an exit code, a signal,
  or a failure to start) and the \<^verbatim>\<open>.env\<close> file it leaves behind.
\<close>

datatype proc_end = Exited int | Killed | SpawnError

record extraction =
  ended :: proc_end
  dotenvAfter :: "string option"

text \<open>
  \<^verbatim>\<open>refreshTokensIfNeeded()\<close>: the answer, the environment afterwards and the number
  of subprocesses launched. \<open>now1\<close> is the clock at the first check, \<open>now2\<close> at the check
  after the extraction.
\<close>

definition refreshTokensIfNeeded :: "builtins \<Rightarrow> int \<Rightarrow> int \<Rightarrow> extraction \<Rightarrow> environ \<Rightarrow> bool \<times> environ \<times> nat" where
  "refreshTokensIfNeeded B now1 now2 x env =
     (let token = env ''AUI_TOKEN''
      in if \<not> given token \<or> \<not> validateToken B now1 token then
           (case ended x of
              Exited code \<Rightarrow>
                (if code = 0 then
                   (let env' = loadEnv True (dotenvAfter x) env
                    in (validateToken B now2 (env' ''AUI_TOKEN''), env', 1))
                 else (False, env, 1))
            | _ \<Rightarrow> (False, env, 1))
         else (True, env, 0))"

definition isCi :: "environ \<Rightarrow> bool" where
  "isCi env = (env ''CI'' = Some ''true'' \<or> env ''GITHUB_ACTIONS'' = Some ''true'')"

definition autoRefreshDisabled :: "environ \<Rightarrow> bool" where
  "autoRefreshDisabled env = (env ''AUI_AUTO_REFRESH'' = Some ''0'')"

definition shouldAutoRefresh :: "args \<Rightarrow> environ \<Rightarrow> bool" where
  "shouldAutoRefresh a env = (refreshTokens a \<or> (\<not> isCi env \<and> \<not> autoRefreshDisabled env))"

datatype outcome = Proceed | Exit nat

text \<open>The first step of \<^verbatim>\<open>run\<close> (lines 1189 to 1206): whether the run goes on or
  the process exits, the environment afterwards, and the subprocesses launched.\<close>

definition runCredentials :: "builtins \<Rightarrow> args \<Rightarrow> int \<Rightarrow> int \<Rightarrow> extraction \<Rightarrow> environ \<Rightarrow> outcome \<times> environ \<times> nat" where
  "runCredentials B a now1 now2 x env =
     (if shouldAutoRefresh a env then
        (let (refreshed, env', launched) = refreshTokensIfNeeded B now1 now2 x env
         in if \<not> refreshed then (Exit 1, env', launched) else (Proceed, env', launched))
      else
        (if \<not> validateToken B now1 (env ''AUI_TOKEN'') then (Exit 1, env, 0)
         else (Proceed, env, 0)))"

section \<open>The sync run\<close>





section \<open>Sample values\<close>

text \<open>
  Concrete inputs for the examples further down. \<open>tableBuiltins\<close> answers like the
  runtime on the few arguments the examples reach and is arbitrary elsewhere; the token
  claims \<^verbatim>\<open>eyJleHAiOjk5OTk5OTk5OTl9\<close> are the base64 of \<^verbatim>\<open>{"exp":9999999999}\<close>.
\<close>

definition tableNumToString :: "jsnum \<Rightarrow> string" where
  "tableNumToString n =
     (case n of
        NaN \<Rightarrow> ''NaN''
      | PosInf \<Rightarrow> ''Infinity''
      | NegInf \<Rightarrow> ''-Infinity''
      | Fin r \<Rightarrow> (if r = 5 then ''5'' else ''0''))"

definition tableStringToNumber :: "string \<Rightarrow> jsnum" where
  "tableStringToNumber s = (if s = [] then Fin 0 else NaN)"

definition tableDateParse :: "json \<Rightarrow> int option" where
  "tableDateParse v =
     (if v = JStr ''2025-09-20T08:00:00.000Z'' then Some 1758355200000 else None)"

definition tableDateToISO :: "int \<Rightarrow> string" where
  "tableDateToISO t =
     (if t = 1758355200000 then ''2025-09-20T08:00:00.000Z'' else ''1970-01-01T00:00:00.000Z'')"

definition tableDecodeClaims :: "string \<Rightarrow> json option" where
  "tableDecodeClaims p =
     (if p = ''eyJleHAiOjk5OTk5OTk5OTl9'' then Some (JObj [(''exp'', JNum (Fin 9999999999))])
      else None)"

definition tableBuiltins :: builtins where
  "tableBuiltins =
     \<lparr>numToString = tableNumToString, stringToNumber = tableStringToNumber,
      dateParse = tableDateParse, dateToISO = tableDateToISO,
      decodeClaims = tableDecodeClaims\<rparr>"




text \<open>A network on which every request fails.\<close>

definition offline :: network where
  "offline sent req = Failed"

text \<open>\<^verbatim>\<open>{id: "a1", instructions: {content: "<p>Read <b>ch. 3</b></p> "}}\<close>, and a record
  whose instructions are 2001 letters without markup.\<close>

definition rawMarkup :: json where
  "rawMarkup =
     JObj [(''id'', JStr ''a1''),
           (''instructions'', JObj [(''content'', JStr ''<p>Read <b>ch. 3</b></p> '')])]"

definition rawLong :: json where
  "rawLong = JObj [(''instructions'', JObj [(''content'', JStr (replicate 2001 CHR ''a''))])]"

text \<open>Command lines: no flag at all (full mode by default), \<^verbatim>\<open>--incremental\<close> and
  \<^verbatim>\<open>--refresh-tokens\<close>.\<close>

definition argsFull :: args where
  "argsFull =
     \<lparr>dueBefore = None, dueAfter = None, statuses = [], classIds = [], incomplete = False,
      overdue = False, incremental = False, full = True, details = None,
      refreshTokens = False\<rparr>"

definition argsIncremental :: args where
  "argsIncremental = argsFull\<lparr>incremental := True, full := False\<rparr>"

definition argsRefresh :: args where
  "argsRefresh = argsFull\<lparr>refreshTokens := True\<rparr>"

text \<open>A state file that has seen \<^verbatim>\<open>a\<close> and \<^verbatim>\<open>b\<close>.\<close>

definition statePrior :: sync_state where
  "statePrior = \<lparr>lastRun = None, seenIds = [''a'', ''b'']\<rparr>"

text \<open>The record \<^verbatim>\<open>normalizeAssignment\<close> returns for \<^verbatim>\<open>{}\<close>, and items made from it.\<close>

definition blankItem :: canonical where
  "blankItem =
     \<lparr>id' = [], title = [], description = [], dueDate = [], assignedDate = [],
      createdDate = [], modifiedDate = [], status = [], classId = [],
      teacherName = JStr [], teacherEmail = JStr [], studentCount = 0, webUrl = [],
      allTurnedIn = False, anySubmittedState = False, allowLateSubmissions = False,
      agg_total = Fin 0, agg_submitted = Fin 0\<rparr>"

definition itemDone :: canonical where
  "itemDone = blankItem\<lparr>id' := ''a'', allTurnedIn := True, anySubmittedState := True\<rparr>"

definition itemNoSubmission :: canonical where
  "itemNoSubmission = blankItem\<lparr>id' := ''b'', allTurnedIn := True, anySubmittedState := False\<rparr>"

definition itemThird :: canonical where
  "itemThird = blankItem\<lparr>id' := ''c''\<rparr>"




text \<open>A clock that stands still while the filter runs.\<close>

definition epoch :: "nat \<Rightarrow> int" where
  "epoch k = 0"

text \<open>
  A remote store without configuration, and one that is configured, already holds a
  page for the assignment \<^verbatim>\<open>a\<close>, and accepts every page after five milliseconds.
\<close>

definition steadyTicks :: "nat \<Rightarrow> tick" where
  "steadyTicks k = \<lparr>lag = 0, took = 5, accepted = True\<rparr>"


definition pageA :: json where
  "pageA =
     JObj [(''properties'',
       JObj [(''Assignment ID'',
         JObj [(''rich_text'', JArr [JObj [(''text'', JObj [(''content'', JStr ''a'')])]])])])]"

definition notionOn :: notion where
  "notionOn =
     \<lparr>NOTION_TOKEN = Some ''secret'', NOTION_DATABASE_ID = Some ''db'',
      queryAnswers = [Body (JObj [(''results'', JArr [pageA]), (''has_more'', JBool False)])],
      ticks = steadyTicks\<rparr>"

text \<open>Two records of the class \<^verbatim>\<open>k1\<close>:
  \<^verbatim>\<open>{id: "a", classId: "k1"}\<close> and \<^verbatim>\<open>{id: "c", classId: "k1"}\<close>.\<close>

definition rawK1a :: json where
  "rawK1a = JObj [(''id'', JStr ''a''), (''classId'', JStr ''k1'')]"

definition rawK1c :: json where
  "rawK1c = JObj [(''id'', JStr ''c''), (''classId'', JStr ''k1'')]"

text \<open>\<^verbatim>\<open>{id: "a", classId: "k1", instructions: {content: "<p>Read <b>ch. 3</b></p> "}}\<close>.\<close>

definition rawK1Markup :: json where
  "rawK1Markup =
     JObj [(''id'', JStr ''a''), (''classId'', JStr ''k1''),
           (''instructions'', JObj [(''content'', JStr ''<p>Read <b>ch. 3</b></p> '')])]"

text \<open>\<^verbatim>\<open>{instructions: {content: 5}}\<close> and \<^verbatim>\<open>{id: {toString: 1}}\<close>.\<close>

definition rawBadContent :: json where
  "rawBadContent = JObj [(''instructions'', JObj [(''content'', JNum (Fin 5))])]"

definition rawBadId :: json where
  "rawBadId = JObj [(''id'', JObj [(''toString'', JNum (Fin 1))])]"

text \<open>
  A token whose claims are \<^verbatim>\<open>{"exp":9999999999}\<close>; environments that hold it, that
  hold no token under continuous integration, and an extractor that exits with code 1.
\<close>

definition tokenSample :: string where
  "tokenSample = ''h.eyJleHAiOjk5OTk5OTk5OTl9.s''"

definition envEmpty :: environ where
  "envEmpty = Map.empty"

definition envValid :: environ where
  "envValid = [''AUI_TOKEN'' \<mapsto> tokenSample]"

definition envCi :: environ where
  "envCi = [''CI'' \<mapsto> ''true'']"

definition envCiValid :: environ where
  "envCiValid = [''CI'' \<mapsto> ''true'', ''AUI_TOKEN'' \<mapsto> tokenSample]"

definition extractionFail :: extraction where
  "extractionFail = \<lparr>ended = Exited 1, dotenvAfter = None\<rparr>"

text \<open>An extractor that succeeds and leaves the token in \<^verbatim>\<open>.env\<close>, in quotes.\<close>

definition extractionOk :: extraction where
  "extractionOk =
     \<lparr>ended = Exited 0,
      dotenvAfter = Some (''AUI_TOKEN='' @ [CHR 0x22] @ tokenSample @ [CHR 0x22, CHR 0x0A])\<rparr>"

section \<open>Predicates used in the statements\<close>

text \<open>
  The fields of a raw record that \<^verbatim>\<open>normalizeAssignment\<close> passes to \<^verbatim>\<open>String\<close> or
  \<^verbatim>\<open>Number\<close> outside a \<^verbatim>\<open>try\<close> all convert: none of them is an object with a
  property \<^verbatim>\<open>toString\<close>, or an array that holds one.
\<close>

definition convertibleFields :: "builtins \<Rightarrow> json \<Rightarrow> bool" where
  "convertibleFields B raw =
     (converts B (js_or (getProp raw ''classId'') (JStr [])) \<and>
      converts B (js_or (getProp raw ''id'') (JStr [])) \<and>
      converts B (js_or (getProp raw ''displayName'') (JStr [])) \<and>
      converts B (js_or (getProp raw ''status'') (JStr [])) \<and>
      converts B (js_or (getProp raw ''webUrl'') (JStr [])) \<and>
      converts B (js_or (getProp (js_or (getProp raw ''submissionAggregates'') (JObj [])) ''total'')
                   (JNum (Fin 0))) \<and>
      converts B (js_or (getProp (js_or (getProp raw ''submissionAggregates'') (JObj [])) ''submitted'')
                   (JNum (Fin 0))))"

text \<open>
  The create calls of an upload are spaced by \<open>delayMs\<close>: each is released at least
  \<open>delayMs\<close> after every earlier one, and none after the limiter's last stamp.
\<close>

definition spaced :: "int \<Rightarrow> upload \<Rightarrow> bool" where
  "spaced delayMs u =
     (sorted_wrt (\<lambda>x y. snd x + delayMs \<le> snd y) (creates u) \<and>
      (\<forall>c \<in> set (creates u). snd c \<le> lastCall u))"

text \<open>
  The roster cache is sound for the requests sent: a class without cache entry has not
  been asked for, and no class has been asked for twice.
\<close>

definition cacheInv :: "world \<Rightarrow> bool" where
  "cacheInv w =
     (\<forall>c. (classMembers w c = None \<longrightarrow> MembersReq c \<notin> set (requests w)) \<and>
          count_list (requests w) (MembersReq c) \<le> 1)"

section \<open>Facts about strings and normalisation\<close>

lemma set_strip_tags: "set (strip_tags s) \<subseteq> set s"
proof (induction s rule: strip_tags.induct)
  case 1
  then show ?case by simp
next
  case (2 c cs)
  have "set (tl (dropWhile (\<lambda>x. x \<noteq> CHR ''>'') cs)) \<subseteq> set cs"
    by (metis list.set_sel(2) set_dropWhileD subsetI tl_Nil)
  with 2 show ?case by auto
qed

lemma has_tag_Cons:
  "has_tag (c # cs) = (if c = CHR ''<'' then CHR ''>'' \<in> set cs else has_tag cs)"
  by (simp add: has_tag_def)

lemma strip_tags_no_tag: "\<not> has_tag (strip_tags s)"
proof (induction s rule: strip_tags.induct)
  case 1
  then show ?case by (simp add: has_tag_def)
next
  case (2 c cs)
  then show ?case using set_strip_tags [of cs]
    by (auto simp: has_tag_Cons)
qed

lemma has_tag_iff:
  "has_tag s \<longleftrightarrow> (\<exists>xs ys zs. s = xs @ CHR ''<'' # ys @ CHR ''>'' # zs)"
proof
  assume "has_tag s"
  then have gt: "CHR ''>'' \<in> set (dropWhile (\<lambda>x. x \<noteq> CHR ''<'') s)"
    by (simp add: has_tag_def)
  have ne: "dropWhile (\<lambda>x. x \<noteq> CHR ''<'') s \<noteq> []"
  proof
    assume "dropWhile (\<lambda>x. x \<noteq> CHR ''<'') s = []"
    with gt show False by simp
  qed
  then obtain r where r: "dropWhile (\<lambda>x. x \<noteq> CHR ''<'') s = CHR ''<'' # r"
    using hd_dropWhile [OF ne] by (cases "dropWhile (\<lambda>x. x \<noteq> CHR ''<'') s") auto
  with gt have "CHR ''>'' \<in> set r" by simp
  then obtain ys zs where "r = ys @ CHR ''>'' # zs" by (auto dest: split_list)
  with r have "s = takeWhile (\<lambda>x. x \<noteq> CHR ''<'') s @ CHR ''<'' # ys @ CHR ''>'' # zs"
    by (metis takeWhile_dropWhile_id)
  then show "\<exists>xs ys zs. s = xs @ CHR ''<'' # ys @ CHR ''>'' # zs" by blast
next
  assume "\<exists>xs ys zs. s = xs @ CHR ''<'' # ys @ CHR ''>'' # zs"
  then obtain xs ys zs where s: "s = xs @ CHR ''<'' # ys @ CHR ''>'' # zs" by blast
  show "has_tag s"
  proof (cases "CHR ''<'' \<in> set xs")
    case True
    then have "dropWhile (\<lambda>x. x \<noteq> CHR ''<'') s =
        dropWhile (\<lambda>x. x \<noteq> CHR ''<'') xs @ CHR ''<'' # ys @ CHR ''>'' # zs"
      unfolding s by (intro dropWhile_append1[of "CHR ''<''"]) auto
    then show ?thesis by (simp add: has_tag_def)
  next
    case False
    then have "dropWhile (\<lambda>x. x \<noteq> CHR ''<'') (xs @ CHR ''<'' # ys @ CHR ''>'' # zs) =
        dropWhile (\<lambda>x. x \<noteq> CHR ''<'') (CHR ''<'' # ys @ CHR ''>'' # zs)"
      by (intro dropWhile_append2) auto
    then have "dropWhile (\<lambda>x. x \<noteq> CHR ''<'') s = CHR ''<'' # ys @ CHR ''>'' # zs"
      unfolding s by simp
    then show ?thesis by (simp add: has_tag_def)
  qed
qed

lemma has_tag_infix: "has_tag b \<Longrightarrow> has_tag (a @ b @ c)"
proof -
  assume "has_tag b"
  then obtain xs ys zs where "b = xs @ CHR ''<'' # ys @ CHR ''>'' # zs"
    using has_tag_iff by blast
  then have "a @ b @ c = (a @ xs) @ CHR ''<'' # ys @ CHR ''>'' # (zs @ c)" by simp
  then show ?thesis using has_tag_iff by blast
qed

lemma trim_infix: "\<exists>a c. s = a @ trim s @ c"
proof -
  let ?d = "dropWhile is_ws s"
  have 1: "s = takeWhile is_ws s @ ?d" by simp
  have "rev ?d = takeWhile is_ws (rev ?d) @ dropWhile is_ws (rev ?d)" by simp
  then have "?d = rev (dropWhile is_ws (rev ?d)) @ rev (takeWhile is_ws (rev ?d))"
    by (metis rev_append rev_rev_ident)
  then have "?d = trim s @ rev (takeWhile is_ws (rev ?d))" by (simp add: trim_def)
  with 1 show ?thesis by metis
qed

lemma trim_no_tag: "\<not> has_tag s \<Longrightarrow> \<not> has_tag (trim s)"
  using trim_infix [of s] has_tag_infix by metis

lemma dropWhile_hd_id: "xs = [] \<or> \<not> P (hd xs) \<Longrightarrow> dropWhile P xs = xs"
  by (cases xs) auto

lemma last_dropWhile_ne: "dropWhile P xs \<noteq> [] \<Longrightarrow> last (dropWhile P xs) = last xs"
  by (metis last_appendR takeWhile_dropWhile_id)

lemma trim_idem: "trim (trim s) = trim s"
proof -
  let ?d = "dropWhile is_ws s"
  let ?e = "dropWhile is_ws (rev ?d)"
  have "rev ?e = [] \<or> \<not> is_ws (hd (rev ?e))"
  proof (cases "?e = []")
    case True
    then show ?thesis by simp
  next
    case False
    have d: "?d \<noteq> []"
    proof
      assume "?d = []"
      then have "?e = []" by (metis dropWhile.simps(1) rev.simps(1))
      with False show False by blast
    qed
    have "hd (rev ?e) = last ?e" using False by (simp add: hd_rev)
    also have "\<dots> = last (rev ?d)" using False by (rule last_dropWhile_ne)
    also have "\<dots> = hd ?d" using d by (simp add: last_rev)
    finally show ?thesis using hd_dropWhile [OF d] by simp
  qed
  then have "dropWhile is_ws (rev ?e) = rev ?e" by (rule dropWhile_hd_id)
  then have "trim (rev ?e) = rev (dropWhile is_ws ?e)" by (simp add: trim_def)
  then show ?thesis by (simp add: trim_def)
qed

lemma strip_tags_id: "CHR ''<'' \<notin> set s \<Longrightarrow> strip_tags s = s"
  by (induction s rule: strip_tags.induct) auto

lemma trim_id: "s = [] \<or> (\<not> is_ws (hd s) \<and> \<not> is_ws (last s)) \<Longrightarrow> trim s = s"
proof -
  assume a: "s = [] \<or> (\<not> is_ws (hd s) \<and> \<not> is_ws (last s))"
  then have 1: "dropWhile is_ws s = s" by (intro dropWhile_hd_id) auto
  have "rev s = [] \<or> \<not> is_ws (hd (rev s))" using a by (cases "s = []") (auto simp: hd_rev)
  then have "dropWhile is_ws (rev s) = rev s" by (rule dropWhile_hd_id)
  with 1 show ?thesis by (simp add: trim_def)
qed

lemma extractDescription_Inr:
  "extractDescription x = Inr d \<Longrightarrow>
     d = [] \<or> (\<exists>s. truthy x \<and> getProp x ''content'' = JStr s \<and> d = trim (strip_tags s))"
  by (auto simp: extractDescription_def split: if_splits json.splits)

lemma extractDescription_clean:
  "extractDescription x = Inr d \<Longrightarrow> \<not> has_tag d \<and> trim d = d"
  using extractDescription_Inr [of x d] trim_no_tag [OF strip_tags_no_tag] trim_idem
  by (auto simp: has_tag_def trim_def)

lemma normalizeAssignment_Inr:
  assumes "normalizeAssignment B net raw w = (Inr c, w')"
  shows "\<exists>cid d1 t cnt w1 d2.
           js_String B (js_or (getProp raw ''classId'') (JStr [])) = Inr cid \<and>
           extractDescription (getProp raw ''instructions'') = Inr d1 \<and>
           rosterStage net raw cid w = (t, cnt, w1) \<and>
           detailStage B net raw cid d1 w1 = (Inr d2, w') \<and>
           makeCanonical B raw cid (fst t) (snd t) cnt d2 = Inr c"
  using assms
  by (auto simp: normalizeAssignment_def Let_def split: if_splits prod.splits sum.splits)

lemma andThen_Inr [simp]: "andThen (Inr x) f = f x"
  by (simp add: andThen_def)

lemma andThen_Inl [simp]: "andThen (Inl e) f = Inl e"
  by (simp add: andThen_def)

lemma andThen_eq_Inr: "andThen m f = Inr y \<longleftrightarrow> (\<exists>x. m = Inr x \<and> f x = Inr y)"
  by (cases m) simp_all

lemma description_makeCanonical:
  "makeCanonical B raw cid tn te cnt d = Inr c \<Longrightarrow> description c = d"
  by (auto simp: makeCanonical_def Let_def andThen_eq_Inr)

lemma detailStage_cases:
  assumes "detailStage B net raw cid d1 w1 = (Inr d2, w')"
  shows "d2 = d1 \<or>
         (d1 = [] \<and> (\<exists>d. net (butlast (requests w')) (last (requests w')) = Body d \<and>
            extractDescription (getProp d ''instructions'') = Inr d2))"
  using assms
  by (auto simp: detailStage_def fetchDetailedAssignment_def Let_def
      split: if_splits prod.splits sum.splits response.splits)

lemma buildPage_Notes:
  "buildPage B c = Inr p \<Longrightarrow> Notes p = take 2000 (description c)"
  by (auto simp: buildPage_def split: if_splits sum.splits)

lemma trim_replicate: "\<not> is_ws x \<Longrightarrow> trim (replicate n x) = replicate n x"
  by (rule trim_id) (cases n, auto)

lemmas normalize_defs = normalizeAssignment_def rosterStage_def extractDescription_def
  detailStage_def makeCanonical_def js_or_def newWorld_def Let_def andThen_def

section \<open>Description of the canonical record\<close>

text \<open>
  C1 (as amended). Whenever \<^verbatim>\<open>normalizeAssignment\<close> returns a record, its description
  contains no complete tag and is trimmed; it is the stripped and trimmed content of the
  record's own instructions when that text is not empty, and otherwise empty or the
  stripped and trimmed content of the instructions in the detail document. The
  normaliser does not cap it: the cap at 2000 is applied where the description becomes
  the notes of a remote-store page.
\<close>

theorem normalizeAssignment_description:
  assumes "normalizeAssignment B net raw w = (Inr c, w')"
  shows "\<not> has_tag (description c) \<and>
         trim (description c) = description c \<and>
         (\<forall>s. truthy (getProp raw ''instructions'') \<and>
              getProp (getProp raw ''instructions'') ''content'' = JStr s \<and>
              trim (strip_tags s) \<noteq> [] \<longrightarrow> description c = trim (strip_tags s)) \<and>
         (description c = [] \<or>
          (\<exists>s. description c = trim (strip_tags s) \<and>
               (getProp (getProp raw ''instructions'') ''content'' = JStr s \<or>
                (\<exists>d. net (butlast (requests w')) (last (requests w')) = Body d \<and>
                     getProp (getProp d ''instructions'') ''content'' = JStr s)))) \<and>
         (\<forall>p. buildPage B c = Inr p \<longrightarrow>
              Notes p = take 2000 (description c) \<and> length (Notes p) \<le> 2000)"
proof -
  from normalizeAssignment_Inr [OF assms] obtain cid d1 t cnt w1 d2 where
    e1: "extractDescription (getProp raw ''instructions'') = Inr d1" and
    ds: "detailStage B net raw cid d1 w1 = (Inr d2, w')" and
    c: "makeCanonical B raw cid (fst t) (snd t) cnt d2 = Inr c"
    by blast
  have d: "description c = d2" using c by (rule description_makeCanonical)
  have alt: "d2 = d1 \<or>
         (\<exists>d. d1 = [] \<and> net (butlast (requests w')) (last (requests w')) = Body d \<and>
            extractDescription (getProp d ''instructions'') = Inr d2)"
    using detailStage_cases [OF ds] by blast
  have clean: "\<not> has_tag d2 \<and> trim d2 = d2"
    using alt extractDescription_clean e1 by blast
  have own: "\<forall>s. truthy (getProp raw ''instructions'') \<and>
              getProp (getProp raw ''instructions'') ''content'' = JStr s \<and>
              trim (strip_tags s) \<noteq> [] \<longrightarrow> d2 = trim (strip_tags s)"
  proof (intro allI impI)
    fix s
    assume a: "truthy (getProp raw ''instructions'') \<and>
              getProp (getProp raw ''instructions'') ''content'' = JStr s \<and>
              trim (strip_tags s) \<noteq> []"
    then have "s \<noteq> []" by (auto simp: trim_def)
    with a have "extractDescription (getProp raw ''instructions'') = Inr (trim (strip_tags s))"
      by (simp add: extractDescription_def)
    with e1 have "d1 = trim (strip_tags s)" by simp
    with a have "d1 \<noteq> []" by simp
    with detailStage_cases [OF ds] \<open>d1 = trim (strip_tags s)\<close> show "d2 = trim (strip_tags s)"
      by blast
  qed
  have prov: "d2 = [] \<or>
          (\<exists>s. d2 = trim (strip_tags s) \<and>
               (getProp (getProp raw ''instructions'') ''content'' = JStr s \<or>
                (\<exists>d. net (butlast (requests w')) (last (requests w')) = Body d \<and>
                     getProp (getProp d ''instructions'') ''content'' = JStr s)))"
    using alt extractDescription_Inr [OF e1] extractDescription_Inr [where d = d2] by blast
  have cap: "\<forall>p. buildPage B c = Inr p \<longrightarrow>
              Notes p = take 2000 (description c) \<and> length (Notes p) \<le> 2000"
    using buildPage_Notes by fastforce
  from clean own prov cap d show ?thesis by simp
qed

text \<open>The record \<open>rawMarkup\<close>: the markup goes, the trailing blank goes.\<close>

theorem normalizeAssignment_description_witness:
  "map_sum id description (fst (normalizeAssignment tableBuiltins offline rawMarkup newWorld)) =
     Inr ''Read ch. 3'' \<and>
   \<not> has_tag ''Read ch. 3'' \<and> trim ''Read ch. 3'' = ''Read ch. 3''"
proof -
  obtain c w' where
    eq: "normalizeAssignment tableBuiltins offline rawMarkup newWorld = (Inr c, w')" and
    d: "description c = ''Read ch. 3''"
    by (simp add: normalize_defs rawMarkup_def trim_def is_ws_def)
  from normalizeAssignment_description [OF eq] d
  have "\<not> has_tag ''Read ch. 3'' \<and> trim ''Read ch. 3'' = ''Read ch. 3''" by simp
  with eq d show ?thesis by simp
qed

text \<open>C1 as stated fails: 2001 letters of instructions give a description of 2001
  characters.\<close>

theorem description_cap_counterexample:
  "map_sum id (length \<circ> description)
     (fst (normalizeAssignment tableBuiltins offline rawLong newWorld)) = Inr 2001"
  by (simp add: normalize_defs rawLong_def strip_tags_id trim_replicate is_ws_def)

section \<open>State commit\<close>

text \<open>
  C2. In full mode (\<^verbatim>\<open>args.full\<close>) the seen ids become the processed ids; in
  incremental mode (\<^verbatim>\<open>args.incremental\<close> without \<^verbatim>\<open>args.full\<close>) they become the
  prior ids followed by the processed ids not yet present, so that as a set they are the
  union and nothing is removed; in both modes \<^verbatim>\<open>lastRun\<close> is the current time.
\<close>

theorem updateState_commit:
  "(full a \<longrightarrow>
      seenIds (updateState B a now processedIds st) = processedIds \<and>
      set (seenIds (updateState B a now processedIds st)) = set processedIds) \<and>
   (\<not> full a \<and> incremental a \<longrightarrow>
      set (seenIds (updateState B a now processedIds st)) = set (seenIds st) \<union> set processedIds \<and>
      take (length (seenIds st)) (seenIds (updateState B a now processedIds st)) = seenIds st) \<and>
   lastRun (updateState B a now processedIds st) = Some (dateToISO B now)"
  by (auto simp: updateState_def Let_def)

text \<open>The two examples of the specification: prior ids \<^verbatim>\<open>a, b\<close>, processed ids
  \<^verbatim>\<open>b, c\<close>.\<close>

theorem updateState_commit_witness:
  "seenIds (updateState tableBuiltins argsFull 0 [''b'', ''c''] statePrior) = [''b'', ''c''] \<and>
   set (seenIds (updateState tableBuiltins argsIncremental 0 [''b'', ''c''] statePrior)) =
     {''a'', ''b'', ''c''} \<and>
   lastRun (updateState tableBuiltins argsFull 0 [''b'', ''c''] statePrior) =
     Some ''1970-01-01T00:00:00.000Z''"
proof -
  have f: "full argsFull" and i: "\<not> full argsIncremental \<and> incremental argsIncremental"
    by (simp_all add: argsFull_def argsIncremental_def)
  from updateState_commit [of argsFull tableBuiltins 0 "[''b'', ''c'']" statePrior] f
  have 1: "seenIds (updateState tableBuiltins argsFull 0 [''b'', ''c''] statePrior) = [''b'', ''c'']"
    and 3: "lastRun (updateState tableBuiltins argsFull 0 [''b'', ''c''] statePrior) =
      Some (dateToISO tableBuiltins 0)"
    by simp_all
  from updateState_commit [of argsIncremental tableBuiltins 0 "[''b'', ''c'']" statePrior] i
  have 2: "set (seenIds (updateState tableBuiltins argsIncremental 0 [''b'', ''c''] statePrior)) =
      set (seenIds statePrior) \<union> set [''b'', ''c'']"
    by simp
  from 1 2 3 show ?thesis
    by (auto simp: statePrior_def tableBuiltins_def tableDateToISO_def)
qed

section \<open>The incomplete filter\<close>

lemma keepItem_incomplete:
  "incomplete a \<Longrightarrow>
   keepItem B a st now item =
     (\<not> (allTurnedIn item \<and> anySubmittedState item) \<and>
      keepItem B (a\<lparr>incomplete := False\<rparr>) st now item)"
  by (simp add: keepItem_def)

lemma keepItem_only_incomplete:
  "\<not> given (dueBefore a) \<Longrightarrow> \<not> given (dueAfter a) \<Longrightarrow> statuses a = [] \<Longrightarrow> classIds a = [] \<Longrightarrow>
   \<not> overdue a \<Longrightarrow> \<not> incremental a \<Longrightarrow>
   keepItem B a st now item = (\<not> (incomplete a \<and> allTurnedIn item \<and> anySubmittedState item))"
  by (simp add: keepItem_def)

lemma applyFilters_split:
  assumes "\<And>now item. keepItem B a st now item = (Q item \<and> keepItem B a' st now item)"
  shows "applyFilters B a st nowAt items = filter Q (applyFilters B a' st nowAt items)"
proof -
  have "filter (\<lambda>(k, item). keepItem B a st (nowAt k) item) (enumerate 0 items) =
        filter (Q \<circ> snd) (filter (\<lambda>(k, item). keepItem B a' st (nowAt k) item) (enumerate 0 items))"
    by (auto simp: assms intro: filter_cong)
  then show ?thesis by (simp add: applyFilters_def filter_map)
qed

lemma applyFilters_all:
  assumes "\<And>now item. keepItem B a st now item = Q item"
  shows "applyFilters B a st nowAt items = filter Q items"
proof -
  have "filter (\<lambda>(k, item). keepItem B a st (nowAt k) item) (enumerate 0 items) =
        filter (Q \<circ> snd) (enumerate 0 items)"
    by (auto simp: assms intro: filter_cong)
  then have "applyFilters B a st nowAt items = map snd (filter (Q \<circ> snd) (enumerate 0 items))"
    by (simp add: applyFilters_def)
  also have "\<dots> = filter Q (map snd (enumerate 0 items))"
    by (simp only: filter_map)
  finally show ?thesis by simp
qed

text \<open>
  C7. With \<^verbatim>\<open>--incomplete\<close> the result of \<^verbatim>\<open>applyFilters\<close> is the result without that
  flag less exactly the items that are both fully turned in and in some submitted state:
  such an item is never in the result, and when no other filter is set every other item
  is, in particular one that is fully turned in without any submitted state.
\<close>

theorem applyFilters_incomplete:
  assumes "incomplete a"
  shows "applyFilters B a st nowAt items =
           filter (\<lambda>item. \<not> (allTurnedIn item \<and> anySubmittedState item))
             (applyFilters B (a\<lparr>incomplete := False\<rparr>) st nowAt items) \<and>
         (\<forall>item. allTurnedIn item \<and> anySubmittedState item \<longrightarrow>
            item \<notin> set (applyFilters B a st nowAt items)) \<and>
         (\<not> given (dueBefore a) \<and> \<not> given (dueAfter a) \<and> statuses a = [] \<and> classIds a = [] \<and>
          \<not> overdue a \<and> \<not> incremental a \<longrightarrow>
            applyFilters B a st nowAt items =
              filter (\<lambda>item. \<not> (allTurnedIn item \<and> anySubmittedState item)) items)"
proof -
  have 1: "applyFilters B a st nowAt items =
           filter (\<lambda>item. \<not> (allTurnedIn item \<and> anySubmittedState item))
             (applyFilters B (a\<lparr>incomplete := False\<rparr>) st nowAt items)"
    by (rule applyFilters_split) (rule keepItem_incomplete [OF assms])
  have 2: "\<forall>item. allTurnedIn item \<and> anySubmittedState item \<longrightarrow>
            item \<notin> set (applyFilters B a st nowAt items)"
    by (subst 1) simp
  have 3: "applyFilters B a st nowAt items =
              filter (\<lambda>item. \<not> (allTurnedIn item \<and> anySubmittedState item)) items"
    if "\<not> given (dueBefore a) \<and> \<not> given (dueAfter a) \<and> statuses a = [] \<and> classIds a = [] \<and>
          \<not> overdue a \<and> \<not> incremental a"
    by (rule applyFilters_all) (use that assms in \<open>simp add: keepItem_only_incomplete\<close>)
  from 1 2 3 show ?thesis by blast
qed

text \<open>
  The example of the specification: of an item with both flags and an item fully turned in
  without submitted state, the second is retained.
\<close>

theorem applyFilters_incomplete_witness:
  "applyFilters tableBuiltins (argsFull\<lparr>incomplete := True\<rparr>) statePrior epoch
     [itemDone, itemNoSubmission] = [itemNoSubmission]"
proof -
  have i: "incomplete (argsFull\<lparr>incomplete := True\<rparr>)" by simp
  have o: "\<not> given (dueBefore (argsFull\<lparr>incomplete := True\<rparr>)) \<and>
           \<not> given (dueAfter (argsFull\<lparr>incomplete := True\<rparr>)) \<and>
           statuses (argsFull\<lparr>incomplete := True\<rparr>) = [] \<and>
           classIds (argsFull\<lparr>incomplete := True\<rparr>) = [] \<and>
           \<not> overdue (argsFull\<lparr>incomplete := True\<rparr>) \<and>
           \<not> incremental (argsFull\<lparr>incomplete := True\<rparr>)"
    by (simp add: argsFull_def)
  from applyFilters_incomplete [OF i, of tableBuiltins statePrior epoch "[itemDone, itemNoSubmission]"] o
  have "applyFilters tableBuiltins (argsFull\<lparr>incomplete := True\<rparr>) statePrior epoch
     [itemDone, itemNoSubmission] =
     filter (\<lambda>item. \<not> (allTurnedIn item \<and> anySubmittedState item)) [itemDone, itemNoSubmission]"
    by blast
  then show ?thesis by (simp add: itemDone_def itemNoSubmission_def)
qed

section \<open>Upload: no duplicate create, spacing of create calls\<close>

lemma rateLimiter_lastCall:
  "lastCall u + delayMs \<le> lastCall (rateLimiter delayMs lg u)"
  by (simp add: rateLimiter_def Let_def)

lemma rateLimiter_creates [simp]: "creates (rateLimiter delayMs lg u) = creates u"
  by (simp add: rateLimiter_def Let_def)

lemma uploadStep_spaced:
  assumes "0 \<le> delayMs" and "spaced delayMs u"
  shows "spaced delayMs (uploadStep B delayMs t item u)"
proof -
  let ?u1 = "rateLimiter delayMs (lag t) u"
  have l: "lastCall u + delayMs \<le> lastCall ?u1" by (rule rateLimiter_lastCall)
  from assms have old: "\<forall>c \<in> set (creates u). snd c + delayMs \<le> lastCall ?u1"
    using l by (fastforce simp: spaced_def)
  from assms have s: "sorted_wrt (\<lambda>x y. snd x + delayMs \<le> snd y) (creates u)"
    by (simp add: spaced_def)
  show ?thesis
  proof (cases "buildPage B item")
    case (Inl e)
    then show ?thesis using s old assms(1)
      by (fastforce simp: uploadStep_def spaced_def Let_def)
  next
    case (Inr p)
    then show ?thesis using s old assms(1)
      by (fastforce simp: uploadStep_def spaced_def Let_def sorted_wrt_append)
  qed
qed

lemma uploadLoop_spaced:
  "0 \<le> delayMs \<Longrightarrow> spaced delayMs u \<Longrightarrow> spaced delayMs (uploadLoop B delayMs env k items u)"
  by (induction items arbitrary: k u) (simp_all add: uploadStep_spaced)

lemma uploadStep_ids:
  "fst ` set (creates (uploadStep B delayMs t item u)) \<subseteq> insert (id' item) (fst ` set (creates u))"
  by (auto simp: uploadStep_def Let_def split: sum.splits)

lemma uploadLoop_ids:
  "fst ` set (creates (uploadLoop B delayMs env k items u)) \<subseteq>
     id' ` set items \<union> fst ` set (creates u)"
proof (induction items arbitrary: k u)
  case Nil
  then show ?case by simp
next
  case (Cons item items)
  show ?case
    using Cons.IH [of "Suc k" "uploadStep B delayMs (env k) item u"]
      uploadStep_ids [of B delayMs "env k" item u]
    by auto
qed


text \<open>
  C8. When \<^verbatim>\<open>uploadToNotion\<close> returns, no create call was issued for an id that the query
  of the remote store had returned, and every create call was released by the rate limiter
  at least 300 milliseconds after each earlier one, measured on the wall clock from the
  limiter's \<^verbatim>\<open>lastCall\<close>. Without the configuration of the store no call is issued.
\<close>

theorem uploadToNotion_creates:
  assumes "uploadToNotion B n t0 items = Some u"
  shows "(\<forall>existingIds. given (NOTION_TOKEN n) \<and> given (NOTION_DATABASE_ID n) \<and>
            getExistingNotionIds (queryAnswers n) [] = Some existingIds \<longrightarrow>
            (\<forall>c \<in> set (creates u). JStr (fst c) \<notin> set existingIds)) \<and>
         sorted_wrt (\<lambda>x y. snd x + 300 \<le> snd y) (creates u) \<and>
         (\<not> (given (NOTION_TOKEN n) \<and> given (NOTION_DATABASE_ID n)) \<longrightarrow> creates u = [])"
proof -
  let ?start = "\<lparr>clock = t0, lastCall = 0, uploaded = 0, failed = 0, creates = []\<rparr>"
  have off: "creates u = []" if "\<not> (given (NOTION_TOKEN n) \<and> given (NOTION_DATABASE_ID n))"
    using that assms by (auto simp: uploadToNotion_def)
  have on: "(\<forall>c \<in> set (creates u). JStr (fst c) \<notin> set existingIds) \<and>
            sorted_wrt (\<lambda>x y. snd x + 300 \<le> snd y) (creates u)"
    if g: "given (NOTION_TOKEN n) \<and> given (NOTION_DATABASE_ID n)" and
       q: "getExistingNotionIds (queryAnswers n) [] = Some existingIds" for existingIds
  proof -
    from assms g q have u: "u = uploadLoop B 300 (ticks n) 0 (newItems existingIds items) ?start"
      by (simp add: uploadToNotion_def)
    have "fst ` set (creates u) \<subseteq> id' ` set (newItems existingIds items)"
      unfolding u using uploadLoop_ids [of B 300 "ticks n" 0 "newItems existingIds items" ?start]
      by simp
    then have 1: "\<forall>c \<in> set (creates u). JStr (fst c) \<notin> set existingIds"
      by (auto simp: newItems_def)
    have "spaced 300 ?start" by (simp add: spaced_def)
    then have "spaced 300 u" unfolding u by (intro uploadLoop_spaced) simp_all
    with 1 show ?thesis by (simp add: spaced_def)
  qed
  show ?thesis
  proof (cases "given (NOTION_TOKEN n) \<and> given (NOTION_DATABASE_ID n)")
    case True
    from assms True obtain existingIds where
      q: "getExistingNotionIds (queryAnswers n) [] = Some existingIds"
      by (auto simp: uploadToNotion_def split: option.splits)
    with on [OF True] True show ?thesis by auto
  next
    case False
    with off show ?thesis by auto
  qed
qed

text \<open>
  A store that already holds \<^verbatim>\<open>a\<close>: of the items \<^verbatim>\<open>a, b, c\<close> the upload creates
  \<^verbatim>\<open>b\<close> at once and \<^verbatim>\<open>c\<close> 300 milliseconds later, although the first call took only 5.
\<close>

theorem uploadToNotion_creates_witness:
  "map_option creates (uploadToNotion tableBuiltins notionOn 1000 [itemDone, itemNoSubmission, itemThird]) =
     Some [(''b'', 1000), (''c'', 1300)] \<and>
   getExistingNotionIds (queryAnswers notionOn) [] = Some [JStr ''a''] \<and>
   sorted_wrt (\<lambda>x y. snd x + 300 \<le> snd y) [(''b'', 1000 :: int), (''c'', 1300)]"
proof -
  have q: "getExistingNotionIds (queryAnswers notionOn) [] = Some [JStr ''a'']"
    by (simp add: notionOn_def pageA_def optProp_def)
  have b: "buildPage tableBuiltins itemNoSubmission = Inr
      \<lparr>external_id = ''b'', Title = [], Notes = [], assignedStart = None, createdStart = None,
       dueStart = None, modifiedStart = None\<rparr>"
    "buildPage tableBuiltins itemThird = Inr
      \<lparr>external_id = ''c'', Title = [], Notes = [], assignedStart = None, createdStart = None,
       dueStart = None, modifiedStart = None\<rparr>"
    by (simp_all add: buildPage_def formatDate_def itemNoSubmission_def itemThird_def blankItem_def)
  have n: "newItems [JStr ''a''] [itemDone, itemNoSubmission, itemThird] = [itemNoSubmission, itemThird]"
    by (simp add: newItems_def itemDone_def itemNoSubmission_def itemThird_def)
  have cfg: "given (NOTION_TOKEN notionOn)" "given (NOTION_DATABASE_ID notionOn)"
    "ticks notionOn = steadyTicks"
    by (simp_all add: notionOn_def)
  have ids: "id' itemNoSubmission = ''b''" "id' itemThird = ''c''"
    by (simp_all add: itemNoSubmission_def itemThird_def)
  let ?u = "uploadLoop tableBuiltins 300 steadyTicks 0 [itemNoSubmission, itemThird]
              \<lparr>clock = 1000, lastCall = 0, uploaded = 0, failed = 0, creates = []\<rparr>"
  have eq: "uploadToNotion tableBuiltins notionOn 1000 [itemDone, itemNoSubmission, itemThird] = Some ?u"
    by (simp add: uploadToNotion_def cfg q n)
  have c: "creates ?u = [(''b'', 1000), (''c'', 1300)]"
    by (simp add: uploadStep_def rateLimiter_def b ids Let_def steadyTicks_def)
  from uploadToNotion_creates [OF eq] c
  have "sorted_wrt (\<lambda>x y. snd x + 300 \<le> snd y) [(''b'', 1000 :: int), (''c'', 1300)]"
    by simp
  with eq c q show ?thesis by simp
qed

section \<open>Exports in incremental mode\<close>














section \<open>Roster cache: one request per class\<close>

lemma cacheInv_newWorld: "cacheInv newWorld"
  by (simp add: cacheInv_def newWorld_def)

lemma fetchClassMembers_inv:
  assumes "cacheInv w"
  shows "cacheInv (snd (fetchClassMembers net cid w))"
proof (cases "classMembers w cid")
  case None
  with assms have "MembersReq cid \<notin> set (requests w)" by (simp add: cacheInv_def)
  then have 0: "count_list (requests w) (MembersReq cid) = 0" by (simp add: count_list_0_iff)
  from assms have le: "\<And>c. count_list (requests w) (MembersReq c) \<le> 1"
    and un: "\<And>c. classMembers w c = None \<Longrightarrow> MembersReq c \<notin> set (requests w)"
    by (simp_all add: cacheInv_def)
  show ?thesis
    using None 0 le un
    by (auto simp: fetchClassMembers_def cacheInv_def Let_def)
next
  case (Some m)
  with assms show ?thesis by (simp add: fetchClassMembers_def)
qed

lemma fetchDetailedAssignment_inv:
  assumes "cacheInv w"
  shows "cacheInv (snd (fetchDetailedAssignment net cid aid w))"
  using assms by (simp add: fetchDetailedAssignment_def cacheInv_def Let_def)

lemma rosterStage_inv:
  assumes "cacheInv w"
  shows "cacheInv (snd (snd (rosterStage net raw cid w)))"
  using fetchClassMembers_inv [OF assms, of net cid] assms
  by (auto simp: rosterStage_def split: prod.splits)

lemma detailStage_inv:
  assumes "cacheInv w"
  shows "cacheInv (snd (detailStage B net raw cid d w))"
proof (cases "js_String B (getProp raw ''id'')")
  case (Inl e)
  with assms show ?thesis by (auto simp: detailStage_def split: sum.splits)
next
  case (Inr aid)
  with fetchDetailedAssignment_inv [OF assms, of net cid aid] assms show ?thesis
    by (auto simp: detailStage_def split: prod.splits sum.splits)
qed

lemma normalizeAssignment_inv:
  assumes "cacheInv w"
  shows "cacheInv (snd (normalizeAssignment B net raw w))"
proof (cases "nullish raw")
  case True
  with assms show ?thesis by (simp add: normalizeAssignment_def)
next
  case False
  show ?thesis
  proof (cases "js_String B (js_or (getProp raw ''classId'') (JStr []))")
    case (Inl e)
    with False assms show ?thesis by (simp add: normalizeAssignment_def)
  next
    case cid: (Inr cid)
    obtain t cnt w1 where r: "rosterStage net raw cid w = (t, cnt, w1)"
      by (cases "rosterStage net raw cid w") auto
    have w1: "cacheInv w1" using rosterStage_inv [OF assms, of net raw cid] r by simp
    show ?thesis
    proof (cases "extractDescription (getProp raw ''instructions'')")
      case (Inl e)
      with False cid r w1 show ?thesis
        by (simp add: normalizeAssignment_def Let_def split: prod.splits)
    next
      case (Inr d1)
      with False cid r detailStage_inv [OF w1, of B net raw cid d1] show ?thesis
        by (auto simp: normalizeAssignment_def Let_def split: prod.splits sum.splits)
    qed
  qed
qed

lemma normalizeAll_inv:
  "cacheInv w \<Longrightarrow> cacheInv (snd (normalizeAll B net raws w))"
proof (induction raws arbitrary: w)
  case Nil
  then show ?case by simp
next
  case (Cons raw raws)
  have 1: "cacheInv (snd (normalizeAssignment B net raw w))"
    using Cons.prems by (rule normalizeAssignment_inv)
  show ?case
  proof (cases "normalizeAssignment B net raw w")
    case (Pair r w1)
    with 1 have w1: "cacheInv w1" by simp
    show ?thesis
    proof (cases r)
      case (Inl e)
      with Pair w1 show ?thesis by simp
    next
      case (Inr c)
      with Pair Cons.IH [OF w1] show ?thesis
        by (auto split: prod.splits sum.splits)
    qed
  qed
qed

text \<open>
  C9. Over a whole run of the normalisation loop, started with an empty cache, the roster
  of any one class is requested at most once, whatever the network answers. A cached
  roster is returned without a request, and a failed request stores the empty roster, so
  that a failure is remembered like a success.
\<close>

theorem roster_fetched_once:
  "count_list (requests (snd (normalizeAll B net raws newWorld))) (MembersReq c) \<le> 1 \<and>
   (\<forall>w m. classMembers w c = Some m \<longrightarrow> fetchClassMembers net c w = (m, w)) \<and>
   (\<forall>w. classMembers w c = None \<and> net (requests w) (MembersReq c) = Failed \<longrightarrow>
      fetchClassMembers net c w =
        (emptyMembers,
         w\<lparr>requests := requests w @ [MembersReq c],
           classMembers := (classMembers w)(c \<mapsto> emptyMembers)\<rparr>))"
proof -
  have "cacheInv (snd (normalizeAll B net raws newWorld))"
    using cacheInv_newWorld by (rule normalizeAll_inv)
  then have 1: "count_list (requests (snd (normalizeAll B net raws newWorld))) (MembersReq c) \<le> 1"
    by (simp add: cacheInv_def)
  have 2: "\<forall>w m. classMembers w c = Some m \<longrightarrow> fetchClassMembers net c w = (m, w)"
    by (simp add: fetchClassMembers_def)
  have 3: "\<forall>w. classMembers w c = None \<and> net (requests w) (MembersReq c) = Failed \<longrightarrow>
      fetchClassMembers net c w =
        (emptyMembers,
         w\<lparr>requests := requests w @ [MembersReq c],
           classMembers := (classMembers w)(c \<mapsto> emptyMembers)\<rparr>)"
    by (simp add: fetchClassMembers_def Let_def)
  from 1 2 3 show ?thesis by blast
qed

text \<open>
  Two records of the same class on a network where every request fails: one roster
  request, then only the two detail requests.
\<close>

theorem roster_fetched_once_witness:
  "requests (snd (normalizeAll tableBuiltins offline [rawK1a, rawK1c] newWorld)) =
     [MembersReq ''k1'', DetailReq ''k1'' ''a'', DetailReq ''k1'' ''c''] \<and>
   count_list [MembersReq ''k1'', DetailReq ''k1'' ''a'', DetailReq ''k1'' ''c''] (MembersReq ''k1'') \<le> 1"
proof -
  have r: "requests (snd (normalizeAll tableBuiltins offline [rawK1a, rawK1c] newWorld)) =
     [MembersReq ''k1'', DetailReq ''k1'' ''a'', DetailReq ''k1'' ''c'']"
    by (simp add: normalize_defs rawK1a_def rawK1c_def fetchClassMembers_def
        fetchDetailedAssignment_def offline_def resolveTeacher_def emptyMembers_def optProp_def
        split: prod.splits)
  from roster_fetched_once [of tableBuiltins offline "[rawK1a, rawK1c]" "''k1''"] r
  show ?thesis by simp
qed

section \<open>Normalisation never throws on a well-typed record\<close>

lemma extractDescription_total:
  assumes "truthy x \<and> truthy (getProp x ''content'') \<longrightarrow> is_string (getProp x ''content'')"
  shows "\<exists>d. extractDescription x = Inr d"
  using assms by (cases "getProp x ''content''") (auto simp: extractDescription_def)

lemma resolveTeacher_empty: "resolveTeacher raw emptyMembers = (JStr [], JStr [])"
  by (simp add: resolveTeacher_def emptyMembers_def Let_def)

lemma rosterStage_default:
  "cid = [] \<Longrightarrow> rosterStage net raw cid w = ((JStr [], JStr []), 0, w)"
  by (simp add: rosterStage_def)

lemma rosterStage_failed:
  "classMembers w cid = None \<Longrightarrow> net (requests w) (MembersReq cid) = Failed \<Longrightarrow>
   fst (rosterStage net raw cid w) = (JStr [], JStr []) \<and> fst (snd (rosterStage net raw cid w)) = 0"
  by (simp add: rosterStage_def fetchClassMembers_def Let_def resolveTeacher_empty)
     (simp add: emptyMembers_def)

lemma converts_iff: "converts B v \<longleftrightarrow> (\<exists>s. js_String B v = Inr s)"
  by (cases "js_String B v") (simp_all add: converts_def)

lemma falsy_converts: "\<not> truthy v \<Longrightarrow> converts B v"
  by (cases v) (simp_all add: converts_def)

lemma converts_or: "converts B (js_or v (JStr [])) \<Longrightarrow> converts B v"
  by (cases "truthy v") (simp_all add: js_or_def falsy_converts)

lemma converts_Number: "converts B v \<Longrightarrow> \<exists>n. js_Number B v = Inr n"
  by (cases v) (auto simp: converts_def split: sum.splits if_splits)

lemma detailStage_skip:
  "d \<noteq> [] \<or> cid = [] \<or> \<not> truthy (getProp raw ''id'') \<Longrightarrow>
   detailStage B net raw cid d w = (Inr d, w)"
  by (auto simp: detailStage_def)

lemma detailStage_total:
  assumes "converts B (js_or (getProp raw ''id'') (JStr []))"
    and "converts B (js_or (getProp raw ''displayName'') (JStr []))"
  shows "\<exists>d2 w2. detailStage B net raw cid d1 w1 = (Inr d2, w2)"
proof -
  from assms obtain s1 s2 where
    "js_String B (getProp raw ''id'') = Inr s1" "js_String B (getProp raw ''displayName'') = Inr s2"
    using converts_or converts_iff by blast
  then show ?thesis
    by (auto simp: detailStage_def Let_def split: prod.splits sum.splits)
qed

lemma normalizeAssignment_shape:
  assumes "\<not> nullish raw"
    and "js_String B (js_or (getProp raw ''classId'') (JStr [])) = Inr cid"
    and "extractDescription (getProp raw ''instructions'') = Inr d1"
    and "detailStage B net raw cid d1 (snd (snd (rosterStage net raw cid w))) = (Inr d2, w2)"
  shows "normalizeAssignment B net raw w =
     (makeCanonical B raw cid (fst (fst (rosterStage net raw cid w)))
        (snd (fst (rosterStage net raw cid w))) (fst (snd (rosterStage net raw cid w))) d2, w2)"
  using assms by (auto simp: normalizeAssignment_def Let_def split: prod.splits)

lemma makeCanonical_total:
  assumes "convertibleFields B raw"
  shows "\<exists>c. makeCanonical B raw cid tn te cnt d = Inr c"
proof -
  from assms obtain s1 s2 s3 s4 where
    "js_String B (js_or (getProp raw ''id'') (JStr [])) = Inr s1"
    "js_String B (js_or (getProp raw ''displayName'') (JStr [])) = Inr s2"
    "js_String B (js_or (getProp raw ''status'') (JStr [])) = Inr s3"
    "js_String B (js_or (getProp raw ''webUrl'') (JStr [])) = Inr s4"
    unfolding convertibleFields_def converts_iff by blast
  moreover from assms obtain n1 n2 where
    "js_Number B (js_or (getProp (js_or (getProp raw ''submissionAggregates'') (JObj [])) ''total'')
       (JNum (Fin 0))) = Inr n1"
    "js_Number B (js_or (getProp (js_or (getProp raw ''submissionAggregates'') (JObj [])) ''submitted'')
       (JNum (Fin 0))) = Inr n2"
    unfolding convertibleFields_def using converts_Number by blast
  ultimately show ?thesis by (simp add: makeCanonical_def Let_def)
qed

lemma makeCanonical_fields:
  assumes "makeCanonical B raw cid tn te cnt d = Inr c"
  shows "js_String B (js_or (getProp raw ''id'') (JStr [])) = Inr (id' c)"
    and "js_String B (js_or (getProp raw ''displayName'') (JStr [])) = Inr (title c)"
    and "dueDate c = iso B (getProp raw ''dueDateTime'')"
    and "assignedDate c = iso B (getProp raw ''assignedDateTime'')"
    and "createdDate c = iso B (getProp raw ''createdDateTime'')"
    and "modifiedDate c = iso B (getProp raw ''lastModifiedDateTime'')"
    and "js_String B (js_or (getProp raw ''status'') (JStr [])) = Inr (status c)"
    and "classId c = cid"
    and "teacherName c = tn"
    and "teacherEmail c = te"
    and "studentCount c = cnt"
    and "js_String B (js_or (getProp raw ''webUrl'') (JStr [])) = Inr (webUrl c)"
    and "allTurnedIn c = truthy (getProp raw ''allTurnedIn'')"
    and "anySubmittedState c = truthy (getProp raw ''anySubmittedState'')"
    and "allowLateSubmissions c = truthy (getProp raw ''allowLateSubmissions'')"
    and "js_Number B (js_or (getProp (js_or (getProp raw ''submissionAggregates'') (JObj [])) ''total'')
           (JNum (Fin 0))) = Inr (agg_total c)"
    and "js_Number B (js_or (getProp (js_or (getProp raw ''submissionAggregates'') (JObj [])) ''submitted'')
           (JNum (Fin 0))) = Inr (agg_submitted c)"
  using assms by (auto simp: makeCanonical_def Let_def andThen_eq_Inr)

text \<open>A record whose id is an object with a property \<^verbatim>\<open>toString\<close>: \<^verbatim>\<open>String\<close> throws on
  it, and the error leaves \<^verbatim>\<open>normalizeAssignment\<close>.\<close>

lemma normalizeAssignment_unconvertible:
  "\<not> convertibleFields tableBuiltins rawBadId \<and>
   fst (normalizeAssignment tableBuiltins offline rawBadId newWorld) = Inl TypeError"
  by (simp add: normalize_defs convertibleFields_def converts_def rawBadId_def)

text \<open>
  C10 (as amended). For a record that is an object, whose instructions content, when
  present and truthy, is a string, and whose fields passed to \<^verbatim>\<open>String\<close> and
  \<^verbatim>\<open>Number\<close> (class id, id, display name, status, web address and the two submission
  counts) all convert, \<^verbatim>\<open>normalizeAssignment\<close> returns a canonical record, whatever the
  network answers to the roster and detail requests. In that record an absent field is
  the empty string, false or zero; without a class id the teacher fields are empty, the
  student count is zero and no request is sent; and a failed roster request leaves the
  teacher fields empty and the student count zero.
\<close>

theorem normalizeAssignment_total:
  assumes "\<not> nullish raw"
    and "truthy (getProp raw ''instructions'') \<and>
         truthy (getProp (getProp raw ''instructions'') ''content'') \<longrightarrow>
         is_string (getProp (getProp raw ''instructions'') ''content'')"
    and "convertibleFields B raw"
  shows "(\<exists>c w'. normalizeAssignment B net raw w = (Inr c, w')) \<and>
         (\<forall>c w'. normalizeAssignment B net raw w = (Inr c, w') \<longrightarrow>
           (\<not> truthy (getProp raw ''id'') \<longrightarrow> id' c = []) \<and>
           (\<not> truthy (getProp raw ''displayName'') \<longrightarrow> title c = []) \<and>
           (\<not> truthy (getProp raw ''dueDateTime'') \<longrightarrow> dueDate c = []) \<and>
           (\<not> truthy (getProp raw ''assignedDateTime'') \<longrightarrow> assignedDate c = []) \<and>
           (\<not> truthy (getProp raw ''createdDateTime'') \<longrightarrow> createdDate c = []) \<and>
           (\<not> truthy (getProp raw ''lastModifiedDateTime'') \<longrightarrow> modifiedDate c = []) \<and>
           (\<not> truthy (getProp raw ''status'') \<longrightarrow> status c = []) \<and>
           (\<not> truthy (getProp raw ''webUrl'') \<longrightarrow> webUrl c = []) \<and>
           (\<not> truthy (getProp raw ''instructions'') \<and>
            (\<not> truthy (getProp raw ''classId'') \<or> \<not> truthy (getProp raw ''id'')) \<longrightarrow>
              description c = []) \<and>
           (\<not> truthy (getProp raw ''classId'') \<longrightarrow>
              classId c = [] \<and> teacherName c = JStr [] \<and> teacherEmail c = JStr [] \<and>
              studentCount c = 0 \<and> w' = w) \<and>
           allTurnedIn c = truthy (getProp raw ''allTurnedIn'') \<and>
           anySubmittedState c = truthy (getProp raw ''anySubmittedState'') \<and>
           allowLateSubmissions c = truthy (getProp raw ''allowLateSubmissions'') \<and>
           (\<not> truthy (getProp raw ''submissionAggregates'') \<longrightarrow>
              agg_total c = Fin 0 \<and> agg_submitted c = Fin 0) \<and>
           (classMembers w (classId c) = None \<and>
            net (requests w) (MembersReq (classId c)) = Failed \<longrightarrow>
              teacherName c = JStr [] \<and> teacherEmail c = JStr [] \<and> studentCount c = 0))"
proof -
  from assms(3) obtain cid where
    cid: "js_String B (js_or (getProp raw ''classId'') (JStr [])) = Inr cid"
    unfolding convertibleFields_def converts_iff by blast
  from extractDescription_total [OF assms(2)] obtain d1 where
    d1: "extractDescription (getProp raw ''instructions'') = Inr d1" by blast
  define r where "r = rosterStage net raw cid w"
  from assms(3) have "converts B (js_or (getProp raw ''id'') (JStr []))"
    and "converts B (js_or (getProp raw ''displayName'') (JStr []))"
    by (simp_all add: convertibleFields_def)
  from detailStage_total [OF this] obtain d2 w' where
    ds: "detailStage B net raw cid d1 (snd (snd r)) = (Inr d2, w')" by blast
  from makeCanonical_total [OF assms(3)] obtain c where
    c: "makeCanonical B raw cid (fst (fst r)) (snd (fst r)) (fst (snd r)) d2 = Inr c" by blast
  note fields = makeCanonical_fields [OF c]
  have eq: "normalizeAssignment B net raw w = (Inr c, w')"
    using normalizeAssignment_shape [OF assms(1) cid d1 ds [unfolded r_def]] c [unfolded r_def]
    by simp
  have strs: "(\<not> truthy (getProp raw ''id'') \<longrightarrow> id' c = []) \<and>
           (\<not> truthy (getProp raw ''displayName'') \<longrightarrow> title c = []) \<and>
           (\<not> truthy (getProp raw ''dueDateTime'') \<longrightarrow> dueDate c = []) \<and>
           (\<not> truthy (getProp raw ''assignedDateTime'') \<longrightarrow> assignedDate c = []) \<and>
           (\<not> truthy (getProp raw ''createdDateTime'') \<longrightarrow> createdDate c = []) \<and>
           (\<not> truthy (getProp raw ''lastModifiedDateTime'') \<longrightarrow> modifiedDate c = []) \<and>
           (\<not> truthy (getProp raw ''status'') \<longrightarrow> status c = []) \<and>
           (\<not> truthy (getProp raw ''webUrl'') \<longrightarrow> webUrl c = [])"
    using fields(1,2,7,12) by (auto simp: fields(3,4,5,6) js_or_def iso_def)
  have cid_empty: "cid = []" if "\<not> truthy (getProp raw ''classId'')"
    using cid that by (simp add: js_or_def)
  have desc: "\<not> truthy (getProp raw ''instructions'') \<and>
            (\<not> truthy (getProp raw ''classId'') \<or> \<not> truthy (getProp raw ''id'')) \<longrightarrow>
              description c = []"
  proof
    assume a: "\<not> truthy (getProp raw ''instructions'') \<and>
            (\<not> truthy (getProp raw ''classId'') \<or> \<not> truthy (getProp raw ''id''))"
    then have "d1 = []" using d1 by (simp add: extractDescription_def)
    moreover from a have "cid = [] \<or> \<not> truthy (getProp raw ''id'')"
      using cid_empty by blast
    ultimately have "d2 = []" using ds by (auto simp: detailStage_skip)
    then show "description c = []" using description_makeCanonical [OF c] by simp
  qed
  have cls: "\<not> truthy (getProp raw ''classId'') \<longrightarrow>
              classId c = [] \<and> teacherName c = JStr [] \<and> teacherEmail c = JStr [] \<and>
              studentCount c = 0 \<and> w' = w"
  proof
    assume "\<not> truthy (getProp raw ''classId'')"
    then have e: "cid = []" by (rule cid_empty)
    have r: "r = ((JStr [], JStr []), 0, w)"
      unfolding r_def using e by (rule rosterStage_default)
    have "w' = w" using ds e r by (simp add: detailStage_skip)
    then show "classId c = [] \<and> teacherName c = JStr [] \<and> teacherEmail c = JStr [] \<and>
              studentCount c = 0 \<and> w' = w"
      using e r by (simp add: fields(8,9,10,11))
  qed
  have flags: "allTurnedIn c = truthy (getProp raw ''allTurnedIn'') \<and>
           anySubmittedState c = truthy (getProp raw ''anySubmittedState'') \<and>
           allowLateSubmissions c = truthy (getProp raw ''allowLateSubmissions'')"
    by (simp add: fields(13,14,15))
  have agg: "\<not> truthy (getProp raw ''submissionAggregates'') \<longrightarrow>
              agg_total c = Fin 0 \<and> agg_submitted c = Fin 0"
    using fields(16,17) by (auto simp: js_or_def)
  have fail: "classMembers w (classId c) = None \<and>
            net (requests w) (MembersReq (classId c)) = Failed \<longrightarrow>
              teacherName c = JStr [] \<and> teacherEmail c = JStr [] \<and> studentCount c = 0"
  proof
    assume "classMembers w (classId c) = None \<and>
            net (requests w) (MembersReq (classId c)) = Failed"
    then have "classMembers w cid = None" "net (requests w) (MembersReq cid) = Failed"
      by (simp_all add: fields(8))
    then have "fst r = (JStr [], JStr []) \<and> fst (snd r) = 0"
      unfolding r_def by (rule rosterStage_failed)
    then show "teacherName c = JStr [] \<and> teacherEmail c = JStr [] \<and> studentCount c = 0"
      by (simp add: fields(9,10,11))
  qed
  have ex: "\<exists>c w'. normalizeAssignment B net raw w = (Inr c, w')"
    using eq by blast
  have every: "(\<not> truthy (getProp raw ''id'') \<longrightarrow> id' c0 = []) \<and>
           (\<not> truthy (getProp raw ''displayName'') \<longrightarrow> title c0 = []) \<and>
           (\<not> truthy (getProp raw ''dueDateTime'') \<longrightarrow> dueDate c0 = []) \<and>
           (\<not> truthy (getProp raw ''assignedDateTime'') \<longrightarrow> assignedDate c0 = []) \<and>
           (\<not> truthy (getProp raw ''createdDateTime'') \<longrightarrow> createdDate c0 = []) \<and>
           (\<not> truthy (getProp raw ''lastModifiedDateTime'') \<longrightarrow> modifiedDate c0 = []) \<and>
           (\<not> truthy (getProp raw ''status'') \<longrightarrow> status c0 = []) \<and>
           (\<not> truthy (getProp raw ''webUrl'') \<longrightarrow> webUrl c0 = []) \<and>
           (\<not> truthy (getProp raw ''instructions'') \<and>
            (\<not> truthy (getProp raw ''classId'') \<or> \<not> truthy (getProp raw ''id'')) \<longrightarrow>
              description c0 = []) \<and>
           (\<not> truthy (getProp raw ''classId'') \<longrightarrow>
              classId c0 = [] \<and> teacherName c0 = JStr [] \<and> teacherEmail c0 = JStr [] \<and>
              studentCount c0 = 0 \<and> w0 = w) \<and>
           allTurnedIn c0 = truthy (getProp raw ''allTurnedIn'') \<and>
           anySubmittedState c0 = truthy (getProp raw ''anySubmittedState'') \<and>
           allowLateSubmissions c0 = truthy (getProp raw ''allowLateSubmissions'') \<and>
           (\<not> truthy (getProp raw ''submissionAggregates'') \<longrightarrow>
              agg_total c0 = Fin 0 \<and> agg_submitted c0 = Fin 0) \<and>
           (classMembers w (classId c0) = None \<and>
            net (requests w) (MembersReq (classId c0)) = Failed \<longrightarrow>
              teacherName c0 = JStr [] \<and> teacherEmail c0 = JStr [] \<and> studentCount c0 = 0)"
    if "normalizeAssignment B net raw w = (Inr c0, w0)" for c0 w0
  proof -
    from that eq have same: "c0 = c" "w0 = w'" by simp_all
    show ?thesis
      unfolding same using strs desc cls flags agg fail
      apply (elim conjE)
      apply (intro conjI; assumption)
      done
  qed
  show ?thesis
  proof (rule conjI)
    show "\<exists>c w'. normalizeAssignment B net raw w = (Inr c, w')" by (rule ex)
  qed (intro allI impI, rule every)
qed

text \<open>
  A record of class \<^verbatim>\<open>k1\<close> with instructions, on a network where every request fails.
\<close>

theorem normalizeAssignment_total_witness:
  "map_sum id teacherName (fst (normalizeAssignment tableBuiltins offline rawK1Markup newWorld)) = Inr (JStr []) \<and>
   map_sum id studentCount (fst (normalizeAssignment tableBuiltins offline rawK1Markup newWorld)) = Inr 0 \<and>
   map_sum id title (fst (normalizeAssignment tableBuiltins offline rawK1Markup newWorld)) = Inr []"
proof -
  have 1: "\<not> nullish rawK1Markup" by (simp add: rawK1Markup_def)
  have 2: "truthy (getProp rawK1Markup ''instructions'') \<and>
         truthy (getProp (getProp rawK1Markup ''instructions'') ''content'') \<longrightarrow>
         is_string (getProp (getProp rawK1Markup ''instructions'') ''content'')"
    by (simp add: rawK1Markup_def)
  have 3: "convertibleFields tableBuiltins rawK1Markup"
    by (simp add: convertibleFields_def converts_def js_or_def rawK1Markup_def)
  note t = normalizeAssignment_total [OF 1 2 3, of offline newWorld]
  from t [THEN conjunct1] obtain c w' where
    eq: "normalizeAssignment tableBuiltins offline rawK1Markup newWorld = (Inr c, w')"
    by blast
  note every = t [THEN conjunct2, rule_format, OF eq]
  from every have "title c = []" by (simp add: rawK1Markup_def)
  moreover from every have "teacherName c = JStr [] \<and> studentCount c = 0"
    by (simp add: newWorld_def offline_def)
  ultimately show ?thesis using eq by simp
qed

text \<open>
  C10 as stated fails: instructions whose content is the number 5 have no
  \<^verbatim>\<open>replace\<close>, and the \<^verbatim>\<open>TypeError\<close> is not caught.
\<close>

theorem normalizeAssignment_total_counterexample:
  "fst (normalizeAssignment tableBuiltins offline rawBadContent newWorld) = Inl TypeError"
  by (simp add: normalize_defs rawBadContent_def)

section \<open>Credential validation\<close>

lemma length_split_on: "length (split_on c s) = Suc (count_list s c)"
proof (induction s)
  case Nil
  then show ?case by simp
next
  case (Cons x xs)
  then show ?case by (cases "split_on c xs") auto
qed

lemma validateToken_unfold:
  "validateToken B nowMs token \<longleftrightarrow>
     (\<exists>t p0 p1 p2 payload.
        token = Some t \<and> t \<noteq> [] \<and> split_on CHR ''.'' t = [p0, p1, p2] \<and>
        decodeClaims B p1 = Some payload \<and> \<not> nullish payload \<and>
        truthy (getProp payload ''exp'') \<and>
        js_gt B (getProp payload ''exp'') (nowMs div 1000))"
  by (auto simp: validateToken_def split: option.splits list.splits)

text \<open>
  C6. \<^verbatim>\<open>validateToken\<close> answers true exactly for a non-empty token of three
  dot-separated parts whose middle part decodes to claims with a truthy \<^verbatim>\<open>exp\<close> that
  is greater than the current time in whole seconds. A missing or empty token, a token
  without exactly two dots and claims that do not decode are all invalid; and for a
  numeric \<^verbatim>\<open>exp\<close> (the clock not before 1970) the token is valid if and only if
  \<^verbatim>\<open>exp\<close> is strictly after now.
\<close>

theorem validateToken_iff:
  "(validateToken B nowMs token \<longleftrightarrow>
     (\<exists>t p0 p1 p2 payload.
        token = Some t \<and> t \<noteq> [] \<and> split_on CHR ''.'' t = [p0, p1, p2] \<and>
        decodeClaims B p1 = Some payload \<and> \<not> nullish payload \<and>
        truthy (getProp payload ''exp'') \<and>
        js_gt B (getProp payload ''exp'') (nowMs div 1000))) \<and>
   \<not> validateToken B nowMs None \<and>
   \<not> validateToken B nowMs (Some []) \<and>
   (\<forall>t. count_list t CHR ''.'' \<noteq> 2 \<longrightarrow> \<not> validateToken B nowMs (Some t)) \<and>
   (\<forall>t p0 p1 p2. split_on CHR ''.'' t = [p0, p1, p2] \<and> decodeClaims B p1 = None \<longrightarrow>
      \<not> validateToken B nowMs (Some t)) \<and>
   (\<forall>t p0 p1 p2 kvs e.
      0 \<le> nowMs \<and> t \<noteq> [] \<and> split_on CHR ''.'' t = [p0, p1, p2] \<and>
      decodeClaims B p1 = Some (JObj kvs) \<and> map_of kvs ''exp'' = Some (JNum (Fin e)) \<longrightarrow>
      (validateToken B nowMs (Some t) \<longleftrightarrow> of_int (nowMs div 1000) < e))"
proof -
  have shape: "\<not> validateToken B nowMs (Some t)" if "count_list t CHR ''.'' \<noteq> 2" for t
  proof
    assume "validateToken B nowMs (Some t)"
    then obtain p0 p1 p2 where "split_on CHR ''.'' t = [p0, p1, p2]"
      unfolding validateToken_unfold by blast
    then have "length (split_on CHR ''.'' t) = 3" by simp
    with that show False by (simp add: length_split_on)
  qed
  have claims: "\<not> validateToken B nowMs (Some t)"
    if "split_on CHR ''.'' t = [p0, p1, p2] \<and> decodeClaims B p1 = None" for t p0 p1 p2
    using that unfolding validateToken_unfold by auto
  have num: "validateToken B nowMs (Some t) \<longleftrightarrow> of_int (nowMs div 1000) < e"
    if "0 \<le> nowMs \<and> t \<noteq> [] \<and> split_on CHR ''.'' t = [p0, p1, p2] \<and>
      decodeClaims B p1 = Some (JObj kvs) \<and> map_of kvs ''exp'' = Some (JNum (Fin e))"
    for t p0 p1 p2 kvs e
  proof -
    from that have "0 \<le> nowMs div 1000" by (simp add: pos_imp_zdiv_nonneg_iff)
    then have "(0::rat) \<le> of_int (nowMs div 1000)" by simp
    then have "of_int (nowMs div 1000) < e \<Longrightarrow> e \<noteq> 0" by auto
    with that show ?thesis
      unfolding validateToken_unfold by (auto simp: js_gt_def)
  qed
  have none: "\<not> validateToken B nowMs None" "\<not> validateToken B nowMs (Some [])"
    by (simp_all add: validateToken_def)
  show ?thesis
  proof (intro conjI)
    show "validateToken B nowMs token \<longleftrightarrow>
     (\<exists>t p0 p1 p2 payload.
        token = Some t \<and> t \<noteq> [] \<and> split_on CHR ''.'' t = [p0, p1, p2] \<and>
        decodeClaims B p1 = Some payload \<and> \<not> nullish payload \<and>
        truthy (getProp payload ''exp'') \<and>
        js_gt B (getProp payload ''exp'') (nowMs div 1000))"
      by (rule validateToken_unfold)
    show "\<forall>t. count_list t CHR ''.'' \<noteq> 2 \<longrightarrow> \<not> validateToken B nowMs (Some t)"
      using shape by blast
    show "\<forall>t p0 p1 p2. split_on CHR ''.'' t = [p0, p1, p2] \<and> decodeClaims B p1 = None \<longrightarrow>
      \<not> validateToken B nowMs (Some t)"
      using claims by blast
    show "\<forall>t p0 p1 p2 kvs e.
      0 \<le> nowMs \<and> t \<noteq> [] \<and> split_on CHR ''.'' t = [p0, p1, p2] \<and>
      decodeClaims B p1 = Some (JObj kvs) \<and> map_of kvs ''exp'' = Some (JNum (Fin e)) \<longrightarrow>
      (validateToken B nowMs (Some t) \<longleftrightarrow> of_int (nowMs div 1000) < e)"
      using num by blast
  qed (rule none)+
qed

text \<open>
  The sample token expires at second 9999999999: valid in 2023, invalid at that very
  second; a string without dots is invalid.
\<close>

theorem validateToken_iff_witness:
  "validateToken tableBuiltins 1700000000000 (Some tokenSample) \<and>
   \<not> validateToken tableBuiltins 9999999999000 (Some tokenSample) \<and>
   \<not> validateToken tableBuiltins 1700000000000 (Some ''not-a-token'')"
proof -
  have s: "split_on CHR ''.'' tokenSample = [''h'', ''eyJleHAiOjk5OTk5OTk5OTl9'', ''s'']"
    by (simp add: tokenSample_def)
  have d: "decodeClaims tableBuiltins ''eyJleHAiOjk5OTk5OTk5OTl9'' =
      Some (JObj [(''exp'', JNum (Fin 9999999999))])"
    by (simp add: tableBuiltins_def tableDecodeClaims_def)
  have n: "tokenSample \<noteq> []" by (simp add: tokenSample_def)
  have m: "map_of [(''exp'', JNum (Fin 9999999999))] ''exp'' = Some (JNum (Fin 9999999999))"
    by simp
  have 1: "validateToken tableBuiltins 1700000000000 (Some tokenSample) \<longleftrightarrow>
      of_int (1700000000000 div 1000) < (9999999999 :: rat)"
    by (rule validateToken_iff [of tableBuiltins 1700000000000 "Some tokenSample",
          THEN conjunct2, THEN conjunct2, THEN conjunct2, THEN conjunct2, THEN conjunct2,
          rule_format, of tokenSample "''h''" "''eyJleHAiOjk5OTk5OTk5OTl9''" "''s''"
          "[(''exp'', JNum (Fin 9999999999))]" 9999999999])
       (use s d n m in simp)
  have 2: "validateToken tableBuiltins 9999999999000 (Some tokenSample) \<longleftrightarrow>
      of_int (9999999999000 div 1000) < (9999999999 :: rat)"
    by (rule validateToken_iff [of tableBuiltins 9999999999000 "Some tokenSample",
          THEN conjunct2, THEN conjunct2, THEN conjunct2, THEN conjunct2, THEN conjunct2,
          rule_format, of tokenSample "''h''" "''eyJleHAiOjk5OTk5OTk5OTl9''" "''s''"
          "[(''exp'', JNum (Fin 9999999999))]" 9999999999])
       (use s d n m in simp)
  have 3: "\<not> validateToken tableBuiltins 1700000000000 (Some ''not-a-token'')"
    using validateToken_iff [of tableBuiltins 1700000000000 "Some ''not-a-token''"]
    by simp
  from 1 2 3 show ?thesis by simp
qed

section \<open>Credential refresh\<close>

lemma validateToken_given: "validateToken B nowMs token \<Longrightarrow> given token"
  by (cases token) (auto simp: validateToken_def split: if_splits)

lemma foldl_setEnv_override:
  "foldl (setEnv True) env ls = env ++ map_of (rev (List.map_filter parseEnvLine ls))"
proof (induction ls arbitrary: env)
  case Nil
  then show ?case by (simp add: List.map_filter_simps)
next
  case (Cons l ls)
  show ?case
  proof (cases "parseEnvLine l")
    case None
    then have "setEnv True env l = env" by (simp add: setEnv_def)
    then show ?thesis using Cons [of env] None by (simp add: List.map_filter_simps)
  next
    case (Some kv)
    obtain k v where kv: "kv = (k, v)" by (cases kv)
    have step: "setEnv True env l = env(k \<mapsto> v)"
      using Some kv by (simp add: setEnv_def)
    have "foldl (setEnv True) env (l # ls) = foldl (setEnv True) (env(k \<mapsto> v)) ls"
      by (simp add: step)
    also have "\<dots> = (env(k \<mapsto> v)) ++ map_of (rev (List.map_filter parseEnvLine ls))"
      by (rule Cons)
    also have "\<dots> = env ++ map_of (rev (List.map_filter parseEnvLine (l # ls)))"
      using Some kv by (simp add: List.map_filter_simps)
    finally show ?thesis .
  qed
qed

lemma loadEnv_override:
  "loadEnv True (Some content) env =
     env ++ map_of (rev (List.map_filter parseEnvLine (split_on CHR 0x0A content)))"
  by (simp add: loadEnv_def foldl_setEnv_override)

text \<open>
  C5 (as amended). \<^verbatim>\<open>refreshTokensIfNeeded\<close> takes no argument. With a valid token it
  answers true at once and launches nothing; this is so under \<^verbatim>\<open>--refresh-tokens\<close> as
  well, since that flag only decides whether \<^verbatim>\<open>run\<close> calls the function. With a token
  that is missing or not valid it launches the extractor once; an exit other than code 0
  is a failure; after code 0 it reloads \<^verbatim>\<open>.env\<close> with override, so that every binding of
  the file wins over the environment, and answers with the validity of the reloaded token.
\<close>

theorem refreshTokensIfNeeded_cases:
  "(validateToken B now1 (env ''AUI_TOKEN'') \<longrightarrow>
      refreshTokensIfNeeded B now1 now2 x env = (True, env, 0)) \<and>
   (\<not> validateToken B now1 (env ''AUI_TOKEN'') \<longrightarrow>
      snd (snd (refreshTokensIfNeeded B now1 now2 x env)) = 1 \<and>
      (ended x \<noteq> Exited 0 \<longrightarrow> refreshTokensIfNeeded B now1 now2 x env = (False, env, 1)) \<and>
      (ended x = Exited 0 \<longrightarrow>
         refreshTokensIfNeeded B now1 now2 x env =
           (validateToken B now2 (loadEnv True (dotenvAfter x) env ''AUI_TOKEN''),
            loadEnv True (dotenvAfter x) env, 1))) \<and>
   (\<forall>content. dotenvAfter x = Some content \<longrightarrow>
      loadEnv True (dotenvAfter x) env =
        env ++ map_of (rev (List.map_filter parseEnvLine (split_on CHR 0x0A content)))) \<and>
   (\<forall>a. refreshTokens a \<longrightarrow>
      runCredentials B a now1 now2 x env =
        (if fst (refreshTokensIfNeeded B now1 now2 x env) then Proceed else Exit 1,
         snd (refreshTokensIfNeeded B now1 now2 x env)))"
proof -
  have valid: "refreshTokensIfNeeded B now1 now2 x env = (True, env, 0)"
    if "validateToken B now1 (env ''AUI_TOKEN'')"
    using that validateToken_given [OF that] by (simp add: refreshTokensIfNeeded_def)
  have invalid: "snd (snd (refreshTokensIfNeeded B now1 now2 x env)) = 1 \<and>
      (ended x \<noteq> Exited 0 \<longrightarrow> refreshTokensIfNeeded B now1 now2 x env = (False, env, 1)) \<and>
      (ended x = Exited 0 \<longrightarrow>
         refreshTokensIfNeeded B now1 now2 x env =
           (validateToken B now2 (loadEnv True (dotenvAfter x) env ''AUI_TOKEN''),
            loadEnv True (dotenvAfter x) env, 1))"
    if "\<not> validateToken B now1 (env ''AUI_TOKEN'')"
    using that by (cases "ended x") (auto simp: refreshTokensIfNeeded_def Let_def)
  have over: "loadEnv True (dotenvAfter x) env =
        env ++ map_of (rev (List.map_filter parseEnvLine (split_on CHR 0x0A content)))"
    if "dotenvAfter x = Some content" for content
    using that by (simp add: loadEnv_override)
  have flag: "runCredentials B a now1 now2 x env =
        (if fst (refreshTokensIfNeeded B now1 now2 x env) then Proceed else Exit 1,
         snd (refreshTokensIfNeeded B now1 now2 x env))"
    if "refreshTokens a" for a
    using that by (simp add: runCredentials_def shouldAutoRefresh_def split: prod.splits)
  show ?thesis
  proof (intro conjI)
    show "validateToken B now1 (env ''AUI_TOKEN'') \<longrightarrow>
      refreshTokensIfNeeded B now1 now2 x env = (True, env, 0)"
      using valid by blast
    show "\<forall>content. dotenvAfter x = Some content \<longrightarrow>
      loadEnv True (dotenvAfter x) env =
        env ++ map_of (rev (List.map_filter parseEnvLine (split_on CHR 0x0A content)))"
      using over by blast
    show "\<forall>a. refreshTokens a \<longrightarrow>
      runCredentials B a now1 now2 x env =
        (if fst (refreshTokensIfNeeded B now1 now2 x env) then Proceed else Exit 1,
         snd (refreshTokensIfNeeded B now1 now2 x env))"
      using flag by blast
  qed (use invalid in blast)
qed

text \<open>
  C4 (as amended). Under continuous integration, or with auto-refresh disabled, and
  without \<^verbatim>\<open>--refresh-tokens\<close>, \<^verbatim>\<open>run\<close> launches no subprocess: it goes on when the
  token is valid and exits with code 1 when it is not, the environment unchanged.
\<close>

theorem runCredentials_unattended:
  assumes "isCi env \<or> autoRefreshDisabled env" and "\<not> refreshTokens a"
  shows "runCredentials B a now1 now2 x env =
           (if validateToken B now1 (env ''AUI_TOKEN'') then Proceed else Exit 1, env, 0)"
  using assms by (auto simp: runCredentials_def shouldAutoRefresh_def)

lemma tokenSample_valid: "validateToken tableBuiltins 1700000000000 (Some tokenSample)"
  by (simp add: validateToken_def tokenSample_def tableBuiltins_def tableDecodeClaims_def js_gt_def)

lemma loadEnv_extractionOk:
  "loadEnv True (dotenvAfter extractionOk) envEmpty = envValid"
  by (simp add: loadEnv_def extractionOk_def envEmpty_def envValid_def setEnv_def
      parseEnvLine_def stripQuotes_def tokenSample_def)

text \<open>
  Under continuous integration: without a token the run exits with code 1, with the
  sample token it goes on; nothing is launched either way.
\<close>

theorem runCredentials_unattended_witness:
  "runCredentials tableBuiltins argsFull 1700000000000 1700000000000 extractionOk envCi =
     (Exit 1, envCi, 0) \<and>
   runCredentials tableBuiltins argsFull 1700000000000 1700000000000 extractionOk envCiValid =
     (Proceed, envCiValid, 0)"
proof -
  have ci: "isCi envCi \<or> autoRefreshDisabled envCi" "isCi envCiValid \<or> autoRefreshDisabled envCiValid"
    by (simp_all add: isCi_def envCi_def envCiValid_def)
  have nf: "\<not> refreshTokens argsFull" by (simp add: argsFull_def)
  have t1: "\<not> validateToken tableBuiltins 1700000000000 (envCi ''AUI_TOKEN'')"
    by (simp add: envCi_def validateToken_def)
  have t2: "validateToken tableBuiltins 1700000000000 (envCiValid ''AUI_TOKEN'')"
    using tokenSample_valid by (simp add: envCiValid_def)
  from runCredentials_unattended [OF ci(1) nf, of tableBuiltins 1700000000000 1700000000000 extractionOk]
    runCredentials_unattended [OF ci(2) nf, of tableBuiltins 1700000000000 1700000000000 extractionOk]
    t1 t2
  show ?thesis by simp
qed

text \<open>
  C4 as stated fails: under continuous integration, \<^verbatim>\<open>--refresh-tokens\<close> with no token
  launches the extractor.
\<close>

theorem unattended_launch_counterexample:
  "isCi envCi \<and>
   runCredentials tableBuiltins argsRefresh 1700000000000 1700000000000 extractionFail envCi =
     (Exit 1, envCi, 1)"
  by (simp add: isCi_def envCi_def runCredentials_def shouldAutoRefresh_def argsRefresh_def
      refreshTokensIfNeeded_def extractionFail_def)

text \<open>
  No token and an extractor that succeeds; no token and an extractor that fails; a valid
  token.
\<close>

theorem refreshTokensIfNeeded_cases_witness:
  "refreshTokensIfNeeded tableBuiltins 1700000000000 1700000000000 extractionOk envEmpty =
     (True, envValid, 1) \<and>
   refreshTokensIfNeeded tableBuiltins 1700000000000 1700000000000 extractionFail envEmpty =
     (False, envEmpty, 1) \<and>
   refreshTokensIfNeeded tableBuiltins 1700000000000 1700000000000 extractionFail envValid =
     (True, envValid, 0)"
proof -
  have inv: "\<not> validateToken tableBuiltins 1700000000000 (envEmpty ''AUI_TOKEN'')"
    by (simp add: envEmpty_def validateToken_def)
  have val: "validateToken tableBuiltins 1700000000000 (envValid ''AUI_TOKEN'')"
    using tokenSample_valid by (simp add: envValid_def)
  have ok: "ended extractionOk = Exited 0" and ko: "ended extractionFail \<noteq> Exited 0"
    by (simp_all add: extractionOk_def extractionFail_def)
  note a = refreshTokensIfNeeded_cases
    [of tableBuiltins 1700000000000 envEmpty 1700000000000 extractionOk]
  note b = refreshTokensIfNeeded_cases
    [of tableBuiltins 1700000000000 envEmpty 1700000000000 extractionFail]
  note c = refreshTokensIfNeeded_cases
    [of tableBuiltins 1700000000000 envValid 1700000000000 extractionFail]
  from a inv ok have 1:
    "refreshTokensIfNeeded tableBuiltins 1700000000000 1700000000000 extractionOk envEmpty =
       (validateToken tableBuiltins 1700000000000
          (loadEnv True (dotenvAfter extractionOk) envEmpty ''AUI_TOKEN''),
        loadEnv True (dotenvAfter extractionOk) envEmpty, 1)"
    by blast
  from b inv ko have 2:
    "refreshTokensIfNeeded tableBuiltins 1700000000000 1700000000000 extractionFail envEmpty =
       (False, envEmpty, 1)"
    by blast
  from c val have 3:
    "refreshTokensIfNeeded tableBuiltins 1700000000000 1700000000000 extractionFail envValid =
       (True, envValid, 0)"
    by blast
  from 1 2 3 val show ?thesis by (simp add: loadEnv_extractionOk)
qed

text \<open>
  C5 as stated fails: with \<^verbatim>\<open>--refresh-tokens\<close> and a valid token no subprocess is
  launched.
\<close>

theorem forced_refresh_counterexample:
  "refreshTokens argsRefresh \<and>
   runCredentials tableBuiltins argsRefresh 1700000000000 1700000000000 extractionOk envValid =
     (Proceed, envValid, 0)"
  using tokenSample_valid
  by (simp add: runCredentials_def shouldAutoRefresh_def argsRefresh_def
      refreshTokensIfNeeded_def envValid_def tokenSample_def)

end
